theory Spec2Isabelle
  imports Main
begin

section \<open>Data model\<close>

text \<open>
  A listing as returned in \<open>jobCards\<close>. Only \<open>jobId\<close> takes part in control flow; the
  other attributes are copied into the alert text.
\<close>

record job =
  jobId :: string
  jobTitle :: string
  locationName :: string

text \<open>
  \<open>seenJobIds\<close> is a JavaScript \<open>Set\<close> of strings. A \<open>Set\<close> iterates in insertion
  order, and \<open>Array.from(seenJobIds).slice(-500)\<close> depends on that order, so the set is
  the list of its members, oldest first, without repetition. \<open>add\<close> of a member
  leaves the set as it is.
\<close>

definition seen_has :: "string list \<Rightarrow> string \<Rightarrow> bool" where
  "seen_has seen k = (k \<in> set seen)"

definition seen_add :: "string list \<Rightarrow> string \<Rightarrow> string list" where
  "seen_add seen k = (if k \<in> set seen then seen else seen @ [k])"

text \<open>\<open>ids.forEach(id => seenJobIds.add(id))\<close>\<close>

fun seen_add_all :: "string list \<Rightarrow> string list \<Rightarrow> string list" where
  "seen_add_all seen [] = seen"
| "seen_add_all seen (k # ks) = seen_add_all (seen_add seen k) ks"

text \<open>\<open>array.slice(-n)\<close>: the last \<open>n\<close> elements, all of them when there are fewer.\<close>

definition slice_last :: "nat \<Rightarrow> 'a list \<Rightarrow> 'a list" where
  "slice_last n xs = drop (length xs - n) xs"

subsection \<open>JSON values and the JavaScript operations applied to them\<close>

text \<open>
  The payload of a token after \<open>JSON.parse\<close>. Numbers are integers here (the
  \<open>exp\<close> and \<open>iat\<close> claims are seconds since the epoch).
\<close>

datatype json = JNull | JBool bool | JNum int | JStr string
  | JArr "json list" | JObj "(string \<times> json) list"

text \<open>Truthiness, as \<open>&&\<close> and \<open>if\<close> test it.\<close>

fun truthy :: "json \<Rightarrow> bool" where
  "truthy JNull = False"
| "truthy (JBool b) = b"
| "truthy (JNum n) = (n \<noteq> 0)"
| "truthy (JStr s) = (s \<noteq> [])"
| "truthy (JArr _) = True"
| "truthy (JObj _) = True"

text \<open>
  Reading a property: \<open>None\<close> is \<open>undefined\<close>. Only objects carry the properties
  \<open>exp\<close> and \<open>iat\<close>.
\<close>

fun member_of :: "json \<Rightarrow> string \<Rightarrow> json option" where
  "member_of (JObj fs) k = map_of fs k"
| "member_of _ k = None"

text \<open>
  The outcome of a JavaScript function that may return a value, return \<open>null\<close> or
  throw.
\<close>

datatype 'a outcome = Returned 'a | ReturnedNull | Thrown string

section \<open>decodeJWT\<close>

text \<open>\<open>token.split('.')\<close>: the segments between the dots, one more than there are dots.\<close>

fun split_dot :: "string \<Rightarrow> string list" where
  "split_dot [] = [[]]"
| "split_dot (c # cs) =
     (if c = CHR ''.'' then [] # split_dot cs
      else (case split_dot cs of
              [] \<Rightarrow> [[c]]
            | p # ps \<Rightarrow> (c # p) # ps))"

text \<open>
  The body of the \<open>try\<close> block. \<open>Buffer.from(_, 'base64').toString('utf8')\<close> and
  \<open>JSON.parse\<close> belong to the runtime and are parameters: the first is total on
  strings, the second returns the parsed value or throws a \<open>SyntaxError\<close>
  (\<open>None\<close>).
\<close>

definition decodeJWT_try ::
  "(string \<Rightarrow> string) \<Rightarrow> (string \<Rightarrow> 'j option) \<Rightarrow> string \<Rightarrow> 'j outcome" where
  "decodeJWT_try base64 parse token =
     (let parts = split_dot token in
      if length parts \<noteq> 3 then ReturnedNull
      else (case parse (base64 (parts ! 1)) of
              None \<Rightarrow> Thrown ''SyntaxError''
            | Some payload \<Rightarrow> Returned payload))"

text \<open>The \<open>catch\<close> block logs the error and returns \<open>null\<close>.\<close>

definition decodeJWT ::
  "(string \<Rightarrow> string) \<Rightarrow> (string \<Rightarrow> 'j option) \<Rightarrow> string \<Rightarrow> 'j outcome" where
  "decodeJWT base64 parse token =
     (case decodeJWT_try base64 parse token of
        Thrown _ \<Rightarrow> ReturnedNull
      | r \<Rightarrow> r)"

section \<open>The environment and the program state\<close>

text \<open>
  What a network request comes back with: the promise rejects, or a response arrives
  with a status and a body.
\<close>

datatype 'b reply = Rejected | Status nat 'b

definition ok :: "nat \<Rightarrow> bool" where
  "ok st = (200 \<le> st \<and> st \<le> 299)"

text \<open>
  The body of a listings response as \<open>fetchAmazonJobs\<close> looks at it:
  \<open>response.json()\<close> rejects, \<open>data.errors\<close> is set, the
  \<open>searchJobCardsByLocation\<close> part is missing, or there are job cards.
\<close>

datatype listing_body = BadJson | GraphqlErrors | NoJobData | JobCards "job list"

text \<open>The body of a messaging response: unparsable, or a result with its \<open>ok\<close> flag.\<close>

datatype tg_body = TgBadJson | TgResult bool

text \<open>
  What a visit of the hiring page yields: \<open>page.goto\<close> rejects, or the page's
  \<open>localStorage\<close> and \<open>sessionStorage\<close> as key-value lists in index order.
\<close>

datatype page = NavFailed | Storage "(string \<times> string) list" "(string \<times> string) list"

text \<open>
  The world answers the program. Each kind of interaction has its own sequence of
  answers, indexed by how many interactions of that kind came before. The wall clock
  (milliseconds since the epoch) is read at a position in the program's history: its
  value after that many observable events. \<open>ToNumber\<close> is JavaScript's numeric
  conversion of strings, arrays and objects (\<open>None\<close> is \<open>NaN\<close>).
\<close>

record world =
  Buffer_base64 :: "string \<Rightarrow> string"
  JSON_parse :: "string \<Rightarrow> json option"
  ToNumber :: "json \<Rightarrow> int option"
  clock :: "nat \<Rightarrow> int"
  launch :: "nat \<Rightarrow> bool"
  goto :: "nat \<Rightarrow> page"
  probe :: "nat \<Rightarrow> unit reply"
  graphql :: "nat \<Rightarrow> listing_body reply"
  telegram :: "nat \<Rightarrow> tg_body reply"
  telegramConfigured :: bool

text \<open>Observable events: requests sent, timers awaited, errors written to the log.\<close>

datatype event =
    Launch
  | Goto
  | Wait nat
  | Query string int
  | Tested string "unit reply"
  | Send string
  | LogError string

text \<open>
  The globals of the monitor, the number of interactions of each kind so far, and the
  history of events.
\<close>

record state =
  seenJobIds :: "string list"
  currentAuthToken :: "string option"
  tokenExpiryTime :: "int option"
  browser :: bool
  launches :: nat
  visits :: nat
  probes :: nat
  fetches :: nat
  sends :: nat
  trace :: "event list"

definition emit :: "event \<Rightarrow> state \<Rightarrow> state" where
  "emit e s = s\<lparr>trace := trace s @ [e]\<rparr>"

text \<open>\<open>Date.now()\<close>\<close>

definition now :: "world \<Rightarrow> state \<Rightarrow> int" where
  "now w s = clock w (length (trace s))"

section \<open>Token extraction (auto-token-monitor.js)\<close>

text \<open>
  The script evaluated in the page looks for a token in three places, the first match
  winning: the \<open>sessionToken\<close> key of \<open>localStorage\<close>, then every value of
  \<open>localStorage\<close>, then every value of \<open>sessionStorage\<close>. The key-less scans also
  ask for more than 100 characters.
\<close>

definition startsWith_eyJ :: "string \<Rightarrow> bool" where
  "startsWith_eyJ v = (take 3 v = ''eyJ'')"

definition method1 :: "(string \<times> string) list \<Rightarrow> string option" where
  "method1 local =
     (case map_of local ''sessionToken'' of
        None \<Rightarrow> None
      | Some v \<Rightarrow> if v \<noteq> [] \<and> startsWith_eyJ v then Some v else None)"

definition scanValues :: "(string \<times> string) list \<Rightarrow> string option" where
  "scanValues store =
     map_option snd
       (find (\<lambda>(key, v). v \<noteq> [] \<and> startsWith_eyJ v \<and> length v > 100) store)"

definition scanStorage ::
  "(string \<times> string) list \<Rightarrow> (string \<times> string) list \<Rightarrow> string option" where
  "scanStorage local session =
     (case method1 local of
        Some t \<Rightarrow> Some t
      | None \<Rightarrow> (case scanValues local of
                   Some t \<Rightarrow> Some t
                 | None \<Rightarrow> scanValues session))"

text \<open>
  \<open>decoded && decoded.exp\<close>: the value of the \<open>exp\<close> claim when both are truthy.
\<close>

definition decodedExp :: "json outcome \<Rightarrow> json option" where
  "decodedExp d =
     (case d of
        Returned v \<Rightarrow>
          (if truthy v then
             (case member_of v ''exp'' of
                None \<Rightarrow> None
              | Some e \<Rightarrow> if truthy e then Some e else None)
           else None)
      | _ \<Rightarrow> None)"

text \<open>\<open>decoded.iat\<close>, \<open>undefined\<close> when there is none.\<close>

definition decodedIat :: "json outcome \<Rightarrow> json option" where
  "decodedIat d = (case d of Returned v \<Rightarrow> member_of v ''iat'' | _ \<Rightarrow> None)"

text \<open>\<open>x * 1000\<close> on a claim: \<open>None\<close> is \<open>NaN\<close>.\<close>

definition times1000 :: "world \<Rightarrow> json option \<Rightarrow> int option" where
  "times1000 w v =
     (case v of
        None \<Rightarrow> None
      | Some JNull \<Rightarrow> Some 0
      | Some (JBool b) \<Rightarrow> Some (if b then 1000 else 0)
      | Some (JNum n) \<Rightarrow> Some (n * 1000)
      | Some j \<Rightarrow> map_option (\<lambda>n. n * 1000) (ToNumber w j))"

text \<open>
  \<open>new Date(x)\<close>: the time value, or an invalid date (\<open>None\<close>) when \<open>x\<close> is
  \<open>NaN\<close> or beyond 8.64e15 milliseconds. \<open>toISOString()\<close> throws a
  \<open>RangeError\<close> on an invalid date.
\<close>

definition newDate :: "int option \<Rightarrow> int option" where
  "newDate x =
     (case x of
        None \<Rightarrow> None
      | Some ms \<Rightarrow> if \<bar>ms\<bar> \<le> 8640000000000000 then Some ms else None)"

definition maxRetries :: nat where
  "maxRetries = 3"

text \<open>
  \<open>testToken\<close> sends an introspection query with the token, logs the status and
  returns nothing; a rejected request is logged too.
\<close>

definition testToken :: "world \<Rightarrow> string \<Rightarrow> state \<Rightarrow> state" where
  "testToken w token s =
     emit (Tested token (probe w (probes s))) (s\<lparr>probes := probes s + 1\<rparr>)"

text \<open>
  The end of the decodable branch of \<open>extractAuthToken\<close>: the lines that print the
  issue and expiry instants call \<open>toISOString()\<close> and so throw on an invalid date;
  then the token and its expiry are stored, the token is tested, and it is returned.
\<close>

definition storeAndTest ::
  "world \<Rightarrow> string \<Rightarrow> json outcome \<Rightarrow> int option \<Rightarrow> state \<Rightarrow> (string + string) \<times> state" where
  "storeAndTest w token decoded expiryDate s =
     (case (newDate (times1000 w (decodedIat decoded)), expiryDate) of
        (Some issued, Some expiry) \<Rightarrow>
          (Inr token,
           testToken w token
             (s\<lparr>currentAuthToken := Some token, tokenExpiryTime := Some expiry\<rparr>))
      | _ \<Rightarrow>
          (Inl ''RangeError: Invalid time value'',
           emit (LogError ''Error extracting auth token'') s))"

text \<open>
  One pass through the body of \<open>extractAuthToken(retryCount)\<close>, up to the point
  where it returns, throws or calls itself. \<open>Finished\<close> carries what it returns
  (\<open>Inr\<close>) or throws (\<open>Inl\<close>; the \<open>catch\<close> logs and rethrows); \<open>Again\<close> marks
  \<open>return await extractAuthToken(retryCount + 1)\<close> and carries the state at that
  point. Comparisons with a \<open>NaN\<close> time left are false.
\<close>

datatype attempt_result = Finished "(string + string) \<times> state" | Again state

definition attempt :: "world \<Rightarrow> nat \<Rightarrow> state \<Rightarrow> attempt_result" where
  "attempt w retryCount s =
     (let s1 = emit Goto (s\<lparr>visits := visits s + 1\<rparr>) in
      case goto w (visits s) of
        NavFailed \<Rightarrow>
          Finished (Inl ''Navigation failed'',
                    emit (LogError ''Error extracting auth token'') s1)
      | Storage local session \<Rightarrow>
          (let s2 = emit (Wait 15000) s1 in
           case scanStorage local session of
             None \<Rightarrow>
               Finished (Inl ''No JWT token found in localStorage or sessionStorage'',
                         emit (LogError ''Error extracting auth token'') s2)
           | Some token \<Rightarrow>
               (let decoded = decodeJWT (Buffer_base64 w) (JSON_parse w) token in
                case decodedExp decoded of
                  None \<Rightarrow>
                    Finished (Inr token,
                              s2\<lparr>currentAuthToken := Some token,
                                 tokenExpiryTime := Some (now w s2 + 59 * 60 * 1000)\<rparr>)
                | Some e \<Rightarrow>
                    (let expiryDate = newDate (times1000 w (Some e));
                         timeLeft = map_option (\<lambda>t. t - now w s2) expiryDate
                     in
                     if (case timeLeft of None \<Rightarrow> False | Some t \<Rightarrow> t \<le> 0) then
                       (if retryCount < maxRetries
                        then Again (emit (Wait 30000) s2)
                        else Finished (Inl ''Unable to get a valid token after 4 attempts'',
                                       emit (LogError ''Error extracting auth token'') s2))
                     else if (case timeLeft of None \<Rightarrow> False
                              | Some t \<Rightarrow> t < 5 * 60 * 1000) then
                       (if retryCount < maxRetries
                        then Again (emit (Wait 30000) s2)
                        else Finished (storeAndTest w token decoded expiryDate s2))
                     else Finished (storeAndTest w token decoded expiryDate s2)))))"

text \<open>\<open>extractAuthToken(retryCount)\<close>: passes through the body until one finishes.\<close>

function extractAuthToken ::
  "world \<Rightarrow> nat \<Rightarrow> state \<Rightarrow> (string + string) \<times> state" where
  "extractAuthToken w retryCount s =
     (case attempt w retryCount s of
        Finished r \<Rightarrow> r
      | Again s' \<Rightarrow> extractAuthToken w (retryCount + 1) s')"
  by pat_completeness auto
termination
  by (relation "measure (\<lambda>(w, retryCount, s). maxRetries - retryCount)")
     (auto simp add: attempt_def Let_def split: page.splits option.splits if_splits)

declare extractAuthToken.simps [simp del]

section \<open>Token lifecycle (auto-token-monitor.js)\<close>

text \<open>\<open>!currentAuthToken\<close>: \<open>null\<close> and the empty string are falsy.\<close>

definition falsy :: "string option \<Rightarrow> bool" where
  "falsy t = (t = None \<or> t = Some [])"

text \<open>
  \<open>isTokenExpired\<close> with the guard margin as a parameter: no token, no expiry, or the
  clock past the expiry minus the margin.
\<close>

definition expiredWithin :: "int \<Rightarrow> world \<Rightarrow> state \<Rightarrow> bool" where
  "expiredWithin margin w s =
     (case tokenExpiryTime s of
        None \<Rightarrow> True
      | Some expiry \<Rightarrow> falsy (currentAuthToken s) \<or> now w s > expiry - margin)"

text \<open>In auto-token-monitor.js the margin is ten minutes.\<close>

definition isTokenExpired :: "world \<Rightarrow> state \<Rightarrow> bool" where
  "isTokenExpired w s = expiredWithin (10 * 60 * 1000) w s"


text \<open>
  \<open>initializeBrowser\<close> launches the browser and opens a page, or throws.
  \<open>browser\<close> stands for \<open>browser && page\<close>.
\<close>

definition initializeBrowser :: "world \<Rightarrow> state \<Rightarrow> (string + unit) \<times> state" where
  "initializeBrowser w s =
     (let s1 = emit Launch (s\<lparr>launches := launches s + 1\<rparr>) in
      if launch w (launches s) then (Inr (), s1\<lparr>browser := True\<rparr>)
      else (Inl ''Browser launch failed'', emit (LogError ''Error initializing browser'') s1))"

text \<open>\<open>refreshAuthToken\<close>: launch the browser if there is none, then extract.\<close>

definition refreshAuthToken :: "world \<Rightarrow> state \<Rightarrow> (string + string) \<times> state" where
  "refreshAuthToken w s =
     (case (if \<not> browser s then initializeBrowser w s else (Inr (), s)) of
        (Inl e, s1) \<Rightarrow> (Inl e, emit (LogError ''Error refreshing auth token'') s1)
      | (Inr _, s1) \<Rightarrow>
          (case extractAuthToken w 0 s1 of
             (Inl e, s2) \<Rightarrow> (Inl e, emit (LogError ''Error refreshing auth token'') s2)
           | (Inr token, s2) \<Rightarrow> (Inr token, s2)))"

section \<open>Polling (auto-token-monitor.js)\<close>

text \<open>
  One pass through the body of \<open>fetchAmazonJobs\<close>. \<open>Returns\<close> carries the list
  it returns; every error thrown inside is caught by its \<open>catch\<close>, which logs it and
  returns the empty list. \<open>Retry\<close> marks \<open>return await fetchAmazonJobs()\<close> after
  a 401 and a successful refresh, with the state at that point.
\<close>

datatype round_result = Returns "job list \<times> state" | Retry state

definition failed :: "state \<Rightarrow> round_result" where
  "failed s = Returns ([], emit (LogError ''Error fetching jobs'') s)"

definition fetchRound :: "world \<Rightarrow> state \<Rightarrow> round_result" where
  "fetchRound w s =
     (case (if isTokenExpired w s then refreshAuthToken w s else (Inr [], s)) of
        (Inl e, s1) \<Rightarrow> failed s1
      | (Inr _, s1) \<Rightarrow>
          (case currentAuthToken s1 of
             None \<Rightarrow> failed s1
           | Some token \<Rightarrow>
               if token = [] then failed s1
               else
                 (let s2 = emit (Query token (now w s1)) (s1\<lparr>fetches := fetches s1 + 1\<rparr>) in
                  case graphql w (fetches s1) of
                    Rejected \<Rightarrow> failed s2
                  | Status st body \<Rightarrow>
                      if \<not> ok st then
                        (if st = 401 then
                           (case refreshAuthToken w s2 of
                              (Inl e, s3) \<Rightarrow> failed s3
                            | (Inr _, s3) \<Rightarrow> Retry s3)
                         else failed s2)
                      else
                        (case body of
                           BadJson \<Rightarrow> failed s2
                         | GraphqlErrors \<Rightarrow> failed s2
                         | NoJobData \<Rightarrow> Returns ([], s2)
                         | JobCards jobs \<Rightarrow> Returns (jobs, s2)))))"

text \<open>
  \<open>fetchAmazonJobs\<close>. Nothing bounds the number of passes, so the function need not
  return: \<open>None\<close> says that it does not.
\<close>

partial_function (option) fetchAmazonJobs ::
  "world \<Rightarrow> state \<Rightarrow> (job list \<times> state) option" where
  "fetchAmazonJobs w s =
     (case fetchRound w s of
        Returns r \<Rightarrow> Some r
      | Retry s3 \<Rightarrow> fetchAmazonJobs w s3)"

section \<open>Alert dispatch (auto-token-monitor.js)\<close>

definition MAX_JOBS_PER_ALERT :: nat where
  "MAX_JOBS_PER_ALERT = 999"

text \<open>
  The body of the \<open>for\<close> loop of \<open>sendTelegramAlert\<close> at index \<open>i\<close>.
  \<open>Escapes\<close> is an error thrown out of the loop (a rejected request, an unparsable
  body). \<open>Continues j\<close> is the end of the body or a \<open>continue\<close> with the loop variable
  at \<open>j\<close>, before the loop's \<open>i++\<close>: on status 429 the body waits ten seconds and
  decrements it.
\<close>

datatype send_result = Escapes state | Continues int state

definition sendOne :: "world \<Rightarrow> job list \<Rightarrow> int \<Rightarrow> state \<Rightarrow> send_result" where
  "sendOne w jobs i s =
     (let s1 = emit (Send (jobId (jobs ! nat i))) (s\<lparr>sends := sends s + 1\<rparr>) in
      case telegram w (sends s) of
        Rejected \<Rightarrow> Escapes s1
      | Status st body \<Rightarrow>
          if st = 429 then Continues (i - 1) (emit (Wait 10000) s1)
          else if \<not> ok st then Continues i (emit (LogError ''Telegram API error'') s1)
          else
            (case body of
               TgBadJson \<Rightarrow> Escapes s1
             | TgResult delivered \<Rightarrow>
                 (let s2 = (if delivered then s1
                            else emit (LogError ''Telegram API error'') s1)
                  in Continues i
                       (if i < int (length jobs) - 1 \<and> i < int MAX_JOBS_PER_ALERT - 1
                        then emit (Wait 2000) s2 else s2))))"

text \<open>
  The loop from index \<open>i\<close>, inside the function's \<open>try\<close>: an escaping error is
  logged by the \<open>catch\<close> and ends the function. Nothing bounds the number of rounds
  on one item, so the loop need not end (\<open>None\<close>).
\<close>

partial_function (option) sendLoop ::
  "world \<Rightarrow> job list \<Rightarrow> int \<Rightarrow> state \<Rightarrow> state option" where
  "sendLoop w jobs i s =
     (if i < int (length jobs) \<and> i < int MAX_JOBS_PER_ALERT then
        (case sendOne w jobs i s of
           Escapes s1 \<Rightarrow> Some (emit (LogError ''Error sending Telegram alert'') s1)
         | Continues j s1 \<Rightarrow> sendLoop w jobs (j + 1) s1)
      else Some s)"

definition sendTelegramAlert :: "world \<Rightarrow> job list \<Rightarrow> state \<Rightarrow> state option" where
  "sendTelegramAlert w jobs s =
     (if \<not> telegramConfigured w
      then Some (emit (LogError ''Telegram configuration missing'') s)
      else sendLoop w jobs 0 s)"

section \<open>The poll cycle\<close>

text \<open>\<open>jobs.filter(job => !seenJobIds.has(job.jobId))\<close>\<close>

definition newJobs :: "job list \<Rightarrow> string list \<Rightarrow> job list" where
  "newJobs jobs seen = filter (\<lambda>job. \<not> seen_has seen (jobId job)) jobs"

text \<open>
  \<open>pollForJobs\<close> of auto-token-monitor.js. Nothing is awaited between the return of
  \<open>fetchAmazonJobs\<close> and the call of \<open>sendTelegramAlert\<close>; what the cycle emits is
  the argument of that call. The cycle returns when the dispatcher does; \<open>None\<close> says
  that the fetch or the dispatcher never returns.
\<close>

definition pollForJobs :: "world \<Rightarrow> state \<Rightarrow> state option" where
  "pollForJobs w s =
     (case fetchAmazonJobs w s of
        None \<Rightarrow> None
      | Some (jobs, s1) \<Rightarrow>
          if length jobs = 0 then Some s1
          else
            (let new = newJobs jobs (seenJobIds s1) in
             if length new > 0 then
               sendTelegramAlert w new
                 (s1\<lparr>seenJobIds := seen_add_all (seenJobIds s1) (map jobId new)\<rparr>)
             else Some s1))"

subsection \<open>The seen set under overlapping cycles\<close>

text \<open>
  In every monitor the cycles are started by \<open>setInterval\<close>, which does not wait for
  the cycle before: while one cycle is suspended at an \<open>await\<close>, others start, run and
  end. Between two \<open>await\<close>s a cycle runs undisturbed, and it touches the seen set in
  two such segments only.

  The first, in all four monitors, follows \<open>await fetchAmazonJobs()\<close>: it filters the
  fetched list against the set and adds the new identifiers. Its result is the list
  handed to the dispatcher (empty when the dispatcher is not called and the cycle ends
  here) and the set it leaves.
\<close>

definition afterFetch :: "job list \<Rightarrow> string list \<Rightarrow> job list \<times> string list" where
  "afterFetch jobs seen =
     (if length jobs = 0 then ([], seen)
      else
        (let new = newJobs jobs seen in
         if length new > 0 then (new, seen_add_all seen (map jobId new))
         else ([], seen)))"

text \<open>
  The second, in the two earlier monitors only, follows
  \<open>await sendTelegramAlert(newJobs)\<close>: it trims the set, and the cycle ends.
\<close>

definition afterAlert :: "string list \<Rightarrow> string list" where
  "afterAlert seen = (if length seen > 1000 then slice_last 500 seen else seen)"

text \<open>
  The 30-second timer of auto-token-monitor.js and of the modular monitor:
  \<open>seenJobIds.clear()\<close>.
\<close>

definition clearSeenJobs :: "state \<Rightarrow> state" where
  "clearSeenJobs s = s\<lparr>seenJobIds := []\<rparr>"

text \<open>
  What happens to the seen set over a run is a sequence of such segments, of whichever
  cycles and timers, in the order in which the event loop runs them.
\<close>

datatype segment = Fetched "job list" | Alerted | Cleared

fun segment_seen :: "segment \<Rightarrow> string list \<Rightarrow> string list" where
  "segment_seen (Fetched jobs) seen = snd (afterFetch jobs seen)"
| "segment_seen Alerted seen = afterAlert seen"
| "segment_seen Cleared seen = []"

fun interleaved :: "segment list \<Rightarrow> string list \<Rightarrow> string list" where
  "interleaved [] seen = seen"
| "interleaved (g # gs) seen = interleaved gs (segment_seen g seen)"

text \<open>
  A sequence of segments can occur when each \<open>Alerted\<close> belongs to a cycle that is
  waiting for its dispatcher; \<open>n\<close> counts the cycles that are.
\<close>

fun admissible :: "segment list \<Rightarrow> string list \<Rightarrow> nat \<Rightarrow> bool" where
  "admissible [] seen n = True"
| "admissible (Fetched jobs # gs) seen n =
     admissible gs (snd (afterFetch jobs seen))
       (if fst (afterFetch jobs seen) = [] then n else n + 1)"
| "admissible (Alerted # gs) seen n = (0 < n \<and> admissible gs (afterAlert seen) (n - 1))"
| "admissible (Cleared # gs) seen n = admissible gs [] n"

text \<open>
  Cycles do not overlap when nothing runs between the two segments of a cycle that
  calls the dispatcher. Such a sequence consists of whole cycles.
\<close>

fun serial :: "segment list \<Rightarrow> string list \<Rightarrow> bool" where
  "serial [] seen = True"
| "serial (Fetched jobs # gs) seen =
     (if fst (afterFetch jobs seen) = [] then serial gs (snd (afterFetch jobs seen))
      else (case gs of
              Alerted # gs' \<Rightarrow> serial gs' (afterAlert (snd (afterFetch jobs seen)))
            | _ \<Rightarrow> False))"
| "serial (Alerted # gs) seen = False"
| "serial (Cleared # gs) seen = serial gs []"

section \<open>The token module (token-extractor.js)\<close>

text \<open>
  \<open>initializeFreshBrowser\<close> closes the browser there is, clears both references and
  launches a new one, or throws.
\<close>

definition initializeFreshBrowser :: "world \<Rightarrow> state \<Rightarrow> (string + unit) \<times> state" where
  "initializeFreshBrowser w s =
     (let s1 = emit Launch (s\<lparr>browser := False, launches := launches s + 1\<rparr>) in
      if launch w (launches s) then (Inr (), s1\<lparr>browser := True\<rparr>)
      else (Inl ''Browser launch failed'',
            emit (LogError ''Error initializing fresh browser'') s1))"

text \<open>
  The module's \<open>extractAuthToken\<close>: one visit of the page, the same three-place scan,
  no decoding of the expiry.
\<close>

definition extractAuthToken_module :: "world \<Rightarrow> state \<Rightarrow> (string + string) \<times> state" where
  "extractAuthToken_module w s =
     (let s1 = emit Goto (s\<lparr>visits := visits s + 1\<rparr>) in
      case goto w (visits s) of
        NavFailed \<Rightarrow>
          (Inl ''Navigation failed'', emit (LogError ''Error extracting auth token'') s1)
      | Storage local session \<Rightarrow>
          (let s2 = emit (Wait 15000) s1 in
           case scanStorage local session of
             None \<Rightarrow>
               (Inl ''No JWT token found in localStorage or sessionStorage'',
                emit (LogError ''Error extracting auth token'') s2)
           | Some token \<Rightarrow> (Inr token, s2)))"

text \<open>
  \<open>validateTokenWithServer\<close> sends the listings query with page size 1 and reports
  the token valid exactly on status 200; a rejected request is caught and reported as
  invalid.
\<close>

definition validateTokenWithServer :: "world \<Rightarrow> string \<Rightarrow> state \<Rightarrow> bool \<times> state" where
  "validateTokenWithServer w token s =
     (let r = probe w (probes s);
          s1 = emit (Tested token r) (s\<lparr>probes := probes s + 1\<rparr>)
      in case r of
           Rejected \<Rightarrow> (False, emit (LogError ''Error validating token with server'') s1)
         | Status st _ \<Rightarrow> (st = 200, s1))"

text \<open>The ten-second pause before another attempt, skipped after the last one.\<close>

definition pauseBeforeRetry :: "nat \<Rightarrow> nat \<Rightarrow> state \<Rightarrow> state" where
  "pauseBeforeRetry attempts retries s =
     (if attempts < retries then emit (Wait 10000) s else s)"

text \<open>
  The \<open>try\<close> block of one attempt of \<open>getValidToken\<close>: a fresh browser, an
  extraction, a validation. \<open>Some\<close> is the token it returns with; \<open>None\<close> is an
  attempt that failed, by an invalid token or by an error that the \<open>catch\<close> logs.
\<close>

definition tryOnce :: "world \<Rightarrow> state \<Rightarrow> string option \<times> state" where
  "tryOnce w s =
     (case initializeFreshBrowser w s of
        (Inl e, s1) \<Rightarrow> (None, emit (LogError ''Error in attempt'') s1)
      | (Inr _, s1) \<Rightarrow>
          (case extractAuthToken_module w s1 of
             (Inl e, s2) \<Rightarrow> (None, emit (LogError ''Error in attempt'') s2)
           | (Inr token, s2) \<Rightarrow>
               (case validateTokenWithServer w token s2 of
                  (True, s3) \<Rightarrow> (Some token, s3)
                | (False, s3) \<Rightarrow> (None, s3))))"

text \<open>
  The \<open>while\<close> loop of \<open>getValidToken(maxRetries)\<close>, entered with \<open>attempts\<close>
  attempts made; the loop counts the attempt before it makes it. After the loop the
  function throws.
\<close>

function getValidToken_loop ::
  "world \<Rightarrow> nat \<Rightarrow> nat \<Rightarrow> state \<Rightarrow> (string + string) \<times> state" where
  "getValidToken_loop w retries attempts s =
     (if attempts < retries then
        (case tryOnce w s of
           (Some token, s3) \<Rightarrow> (Inr token, s3)
         | (None, s3) \<Rightarrow>
             getValidToken_loop w retries (attempts + 1)
               (pauseBeforeRetry (attempts + 1) retries s3))
      else (Inl ''Failed to obtain valid token'', s))"
  by pat_completeness auto
termination
  by (relation "measure (\<lambda>(w, retries, attempts, s). retries - attempts)") auto

declare getValidToken_loop.simps [simp del]

definition getValidToken :: "world \<Rightarrow> nat \<Rightarrow> state \<Rightarrow> (string + string) \<times> state" where
  "getValidToken w retries s = getValidToken_loop w retries 0 s"

section \<open>The modular monitor (unnamed/part_000, second script)\<close>





section \<open>Overlapping renewals\<close>

text \<open>
  Renewals overlap when one is called while another is suspended at an \<open>await\<close>: the
  55-minute timer, the start of a fetch and its 401 branch all call
  \<open>refreshAuthToken\<close>, and fetches of overlapping cycles do so independently. A call
  runs undisturbed up to its first \<open>await\<close>. With a browser at hand that is
  \<open>await page.goto(...)\<close> in \<open>extractAuthToken\<close>: when the call is suspended, it has
  started a navigation of the one page. Without a browser it is
  \<open>await puppeteer.launch(...)\<close> in \<open>initializeBrowser\<close>. The call then waits for the
  answer to what it started. Nothing on the way reads or writes a record of a renewal
  in flight.
\<close>

datatype pending = Navigation nat | Launching nat | Closing

definition refreshAuthToken_start :: "state \<Rightarrow> pending \<times> state" where
  "refreshAuthToken_start s =
     (if \<not> browser s
      then (Launching (launches s), emit Launch (s\<lparr>launches := launches s + 1\<rparr>))
      else (Navigation (visits s), emit Goto (s\<lparr>visits := visits s + 1\<rparr>)))"

text \<open>
  \<open>getValidToken\<close> of the token module begins with \<open>initializeFreshBrowser\<close>. With
  a browser at hand its first \<open>await\<close> is \<open>await browser.close()\<close>; when the call
  resumes, it clears the references and starts a launch. Without a browser it starts
  the launch at once.
\<close>

definition getValidToken_resume :: "state \<Rightarrow> pending \<times> state" where
  "getValidToken_resume s =
     (Launching (launches s), emit Launch (s\<lparr>browser := False, launches := launches s + 1\<rparr>))"

definition getValidToken_start :: "state \<Rightarrow> pending \<times> state" where
  "getValidToken_start s = (if browser s then (Closing, s) else getValidToken_resume s)"

text \<open>
  \<open>n\<close> calls made one after the other, none of them resumed: what each is waiting for,
  and the state they leave.
\<close>

fun overlapped :: "(state \<Rightarrow> pending \<times> state) \<Rightarrow> nat \<Rightarrow> state \<Rightarrow> pending list \<times> state" where
  "overlapped start 0 s = ([], s)"
| "overlapped start (Suc n) s =
     (case start s of
        (p, s1) \<Rightarrow> (case overlapped start n s1 of (ps, s2) \<Rightarrow> (p # ps, s2)))"

section \<open>Auxiliary notions for the statements\<close>

text \<open>\<open>parts.join('.')\<close>, the inverse of \<open>split('.')\<close>.\<close>

fun join_dot :: "string list \<Rightarrow> string" where
  "join_dot [] = []"
| "join_dot [p] = p"
| "join_dot (p # q # ps) = p @ ''.'' @ join_dot (q # ps)"

text \<open>
  The token consists of exactly three segments separated by two dots, and \<open>m\<close> is the
  middle one.
\<close>

definition three_segments :: "string \<Rightarrow> string \<Rightarrow> bool" where
  "three_segments token m =
     (\<exists>a c. token = a @ ''.'' @ m @ ''.'' @ c
        \<and> CHR ''.'' \<notin> set a \<and> CHR ''.'' \<notin> set m \<and> CHR ''.'' \<notin> set c)"

text \<open>The parts of the state that token extraction leaves alone.\<close>

definition unchanged :: "state \<Rightarrow> state \<Rightarrow> bool" where
  "unchanged s s' \<longleftrightarrow>
     seenJobIds s' = seenJobIds s \<and> browser s' = browser s \<and> launches s' = launches s
     \<and> fetches s' = fetches s \<and> sends s' = sends s"

text \<open>
  Notions for the statements about a pass of \<open>fetchAmazonJobs\<close>. The first part of a
  pass, up to its request: the refresh when \<open>isTokenExpired()\<close> says so, the check that
  there is a token, and the request sent with it. \<open>Unsent\<close> is a pass in which an error
  is thrown before any request goes out, with the state at that point.
\<close>

datatype request = Unsent state | Sent string state

definition sendsRequest :: "world \<Rightarrow> state \<Rightarrow> request" where
  "sendsRequest w s =
     (case (if isTokenExpired w s then refreshAuthToken w s else (Inr [], s)) of
        (Inl e, s1) \<Rightarrow> Unsent s1
      | (Inr _, s1) \<Rightarrow>
          (case currentAuthToken s1 of
             None \<Rightarrow> Unsent s1
           | Some token \<Rightarrow>
               if token = [] then Unsent s1
               else Sent token (emit (Query token (now w s1)) (s1\<lparr>fetches := fetches s1 + 1\<rparr>))))"

text \<open>
  The answers to the listings request that are errors of the network, of the protocol
  or of parsing: a rejected request, an error status other than 401, a success with an
  unparsable body or with GraphQL errors.
\<close>

definition fetchError :: "listing_body reply \<Rightarrow> bool" where
  "fetchError r =
     (case r of
        Rejected \<Rightarrow> True
      | Status st body \<Rightarrow>
          (if ok st then body = BadJson \<or> body = GraphqlErrors else st \<noteq> 401))"

text \<open>The state in which a tick starts its next pass after \<open>k\<close> passes that ended in a retry.\<close>

fun retried :: "world \<Rightarrow> nat \<Rightarrow> state \<Rightarrow> state option" where
  "retried w 0 s = Some s"
| "retried w (Suc k) s =
     (case fetchRound w s of
        Returns r \<Rightarrow> None
      | Retry s3 \<Rightarrow> retried w k s3)"

text \<open>
  Notions for the dispatcher. A reply is a rate limit when its status is 429; it
  settles an item when it is a response with another status that the loop body reads
  without throwing. A list of numbers, one per item, describes what the provider does
  from its \<open>p\<close>-th reply on: as many rate limits on the item as its number says, then
  a reply that settles it.
\<close>

definition is429 :: "tg_body reply \<Rightarrow> bool" where
  "is429 r = (case r of Rejected \<Rightarrow> False | Status st body \<Rightarrow> st = 429)"

definition settles :: "tg_body reply \<Rightarrow> bool" where
  "settles r =
     (case r of
        Rejected \<Rightarrow> False
      | Status st body \<Rightarrow> st \<noteq> 429 \<and> (ok st \<longrightarrow> body \<noteq> TgBadJson))"

fun follows :: "world \<Rightarrow> nat \<Rightarrow> nat list \<Rightarrow> bool" where
  "follows w p [] = True"
| "follows w p (n # ns) =
     ((\<forall>k<n. is429 (telegram w (p + k))) \<and> settles (telegram w (p + n))
      \<and> follows w (p + n + 1) ns)"

text \<open>The sends and the ten-second cooldowns of a history, in order.\<close>

definition dispatched :: "event list \<Rightarrow> event list" where
  "dispatched evs =
     filter (\<lambda>e. case e of Send _ \<Rightarrow> True | Wait d \<Rightarrow> d = 10000 | _ \<Rightarrow> False) evs"

text \<open>
  What is expected of the dispatcher: each item in turn is sent, and sent again after a
  cooldown for each rate limit that it met.
\<close>

fun expected :: "job list \<Rightarrow> nat list \<Rightarrow> event list" where
  "expected (job # jobs) (n # ns) =
     concat (replicate n [Send (jobId job), Wait 10000]) @ Send (jobId job) # expected jobs ns"
| "expected _ _ = []"

text \<open>
  A reply makes the loop body throw when the request is rejected, or when the status is
  a success and the body cannot be parsed. Every reply is a rate limit, settles the
  item or throws.
\<close>

definition throws :: "tg_body reply \<Rightarrow> bool" where
  "throws r =
     (case r of
        Rejected \<Rightarrow> True
      | Status st body \<Rightarrow> st \<noteq> 429 \<and> ok st \<and> body = TgBadJson)"

section \<open>Concrete runs\<close>

text \<open>
  A monitor in steady state: two identifiers seen, a token with fifty minutes to live,
  the browser running. And a world that answers every request with success: three
  listings, of which the third is new.
\<close>

definition aJob :: "string \<Rightarrow> job" where
  "aJob k = \<lparr>jobId = k, jobTitle = ''Warehouse Associate'', locationName = ''Toronto''\<rparr>"

definition steady :: state where
  "steady = \<lparr>seenJobIds = [''J1'', ''J2''], currentAuthToken = Some ''eyJhbGciOiJIUzI1NiJ9'',
     tokenExpiryTime = Some 1700003000000, browser = True, launches = 1, visits = 1,
     probes = 0, fetches = 0, sends = 0, trace = []\<rparr>"

definition calm :: world where
  "calm = \<lparr>Buffer_base64 = (\<lambda>m. m), JSON_parse = (\<lambda>p. None), ToNumber = (\<lambda>j. None),
     clock = (\<lambda>k. 1700000000000 + 16000 * int k),
     launch = (\<lambda>n. True),
     goto = (\<lambda>n. Storage [(''sessionToken'', ''eyJhbGciOiJIUzI1NiJ9'')] []),
     probe = (\<lambda>n. Status 200 ()),
     graphql = (\<lambda>n. Status 200 (JobCards [aJob ''J1'', aJob ''J2'', aJob ''J3''])),
     telegram = (\<lambda>n. Status 200 (TgResult True)),
     telegramConfigured = True\<rparr>"

text \<open>
  Worlds that differ from the calm one in what the listings API answers: 401 to every
  request; 401 to the first two requests and three listings after that; 401 while the
  hiring page cannot be reached; 403 to every request.
\<close>

definition denying :: world where
  "denying = calm\<lparr>graphql := (\<lambda>n. Status 401 NoJobData)\<rparr>"


definition unplugged :: world where
  "unplugged = denying\<lparr>goto := (\<lambda>n. NavFailed)\<rparr>"


text \<open>
  A world in which every listings request is rejected by the network, and one in which
  every message to the channel is.
\<close>

definition offline :: world where
  "offline = calm\<lparr>graphql := (\<lambda>n. Rejected)\<rparr>"

definition muted :: world where
  "muted = calm\<lparr>telegram := (\<lambda>n. Rejected)\<rparr>"

text \<open>The steady monitor when its token has three minutes left.\<close>

definition stale :: state where
  "stale = steady\<lparr>tokenExpiryTime := Some (1700000000000 + 3 * 60 * 1000)\<rparr>"

text \<open>
  A runtime that decodes and parses the payloads of four tokens, which expire 452,
  3600, -1000 and 200 seconds after the instant 1700000000 at which the concrete runs
  start.
\<close>

definition decode64 :: "string \<Rightarrow> string" where
  \<open>decode64 m =
     (if m = ''eyJleHAiOjE3MDAwMDA0NTIsImlhdCI6MTY5OTk5Njg1Mn0''
        then ''{"exp":1700000452,"iat":1699996852}''
      else if m = ''eyJleHAiOjE3MDAwMDM2MDAsImlhdCI6MTcwMDAwMDAwMH0''
        then ''{"exp":1700003600,"iat":1700000000}''
      else if m = ''eyJleHAiOjE2OTk5OTkwMDAsImlhdCI6MTY5OTk5NTQwMH0''
        then ''{"exp":1699999000,"iat":1699995400}''
      else if m = ''eyJleHAiOjE3MDAwMDAyMDAsImlhdCI6MTY5OTk5NjYwMH0''
        then ''{"exp":1700000200,"iat":1699996600}''
      else [])\<close>

definition parseJson :: "string \<Rightarrow> json option" where
  \<open>parseJson p =
     (if p = ''{"exp":1700000452,"iat":1699996852}''
        then Some (JObj [(''exp'', JNum 1700000452), (''iat'', JNum 1699996852)])
      else if p = ''{"exp":1700003600,"iat":1700000000}''
        then Some (JObj [(''exp'', JNum 1700003600), (''iat'', JNum 1700000000)])
      else if p = ''{"exp":1699999000,"iat":1699995400}''
        then Some (JObj [(''exp'', JNum 1699999000), (''iat'', JNum 1699995400)])
      else if p = ''{"exp":1700000200,"iat":1699996600}''
        then Some (JObj [(''exp'', JNum 1700000200), (''iat'', JNum 1699996600)])
      else None)\<close>

definition token452 :: string where
  "token452 = ''eyJhbGciOiJIUzI1NiJ9.eyJleHAiOjE3MDAwMDA0NTIsImlhdCI6MTY5OTk5Njg1Mn0.c2ln''"

definition token3600 :: string where
  "token3600 = ''eyJhbGciOiJIUzI1NiJ9.eyJleHAiOjE3MDAwMDM2MDAsImlhdCI6MTcwMDAwMDAwMH0.c2ln''"

definition tokenPast :: string where
  "tokenPast = ''eyJhbGciOiJIUzI1NiJ9.eyJleHAiOjE2OTk5OTkwMDAsImlhdCI6MTY5OTk5NTQwMH0.c2ln''"

definition token200 :: string where
  "token200 = ''eyJhbGciOiJIUzI1NiJ9.eyJleHAiOjE3MDAwMDAyMDAsImlhdCI6MTY5OTk5NjYwMH0.c2ln''"

text \<open>
  The calm world with that runtime, whose page holds the token that expires after 452
  seconds.
\<close>

definition shortlived :: world where
  "shortlived = calm\<lparr>Buffer_base64 := decode64, JSON_parse := parseJson,
     goto := (\<lambda>n. Storage [(''sessionToken'', token452)] [])\<rparr>"

text \<open>
  The candidate of a visit: the token that the visit made in state \<open>s\<close> finds, its
  decoded payload, the expiry instant it decodes to, and the state after the settle
  wait in which \<open>extractAuthToken\<close> reads the clock. \<open>None\<close> when the visit fails,
  finds no token, or the token carries no usable expiry.
\<close>

definition candidate :: "world \<Rightarrow> state \<Rightarrow> (string \<times> json outcome \<times> int \<times> state) option" where
  "candidate w s =
     (case goto w (visits s) of
        NavFailed \<Rightarrow> None
      | Storage local session \<Rightarrow>
          (case scanStorage local session of
             None \<Rightarrow> None
           | Some token \<Rightarrow>
               (let decoded = decodeJWT (Buffer_base64 w) (JSON_parse w) token in
                case decodedExp decoded of
                  None \<Rightarrow> None
                | Some e \<Rightarrow>
                    (case newDate (times1000 w (Some e)) of
                       None \<Rightarrow> None
                     | Some expiry \<Rightarrow>
                         Some (token, decoded, expiry,
                               emit (Wait 15000) (emit Goto (s\<lparr>visits := visits s + 1\<rparr>)))))))"

text \<open>
  Worlds for runs of the extractor. Their clock gives two seconds to a navigation and a
  probe, fifteen to the settle wait and thirty to the wait between attempts. In the
  first the page holds a token with 200 seconds left on the first visit and one with an
  hour left afterwards; in the second it always holds the 200-second token; in the
  third a token that expired 1000 seconds before the run. In the last the page holds
  the one-hour token and the API answers the probe with status 500.
\<close>

definition paced :: "nat \<Rightarrow> int" where
  "paced k = 1700000000000 + 47000 * int (k div 3) + [0, 2000, 17000] ! (k mod 3)"

definition aging :: world where
  "aging = calm\<lparr>Buffer_base64 := decode64, JSON_parse := parseJson, clock := paced,
     goto := (\<lambda>n. Storage [(''sessionToken'', if n \<le> 1 then token200 else token3600)] [])\<rparr>"

definition expiring :: world where
  "expiring = calm\<lparr>Buffer_base64 := decode64, JSON_parse := parseJson, clock := paced,
     goto := (\<lambda>n. Storage [(''sessionToken'', token200)] [])\<rparr>"

definition expired :: world where
  "expired = calm\<lparr>Buffer_base64 := decode64, JSON_parse := parseJson, clock := paced,
     goto := (\<lambda>n. Storage [(''sessionToken'', tokenPast)] [])\<rparr>"

definition failing_probe :: world where
  "failing_probe = calm\<lparr>Buffer_base64 := decode64, JSON_parse := parseJson, clock := paced,
     goto := (\<lambda>n. Storage [(''sessionToken'', token3600)] []),
     probe := (\<lambda>n. Status 500 ())\<rparr>"

text \<open>
  A provider that rate-limits the second message it receives, and one that rejects it
  with status 400.
\<close>

definition throttled :: world where
  "throttled = calm\<lparr>telegram := (\<lambda>n. if n = 1 then Status 429 (TgResult False)
                                       else Status 200 (TgResult True))\<rparr>"

definition refusing :: world where
  "refusing = calm\<lparr>telegram := (\<lambda>n. if n = 1 then Status 400 (TgResult False)
                                      else Status 200 (TgResult True))\<rparr>"

text \<open>A provider whose connection drops on the second message, and a batch of three.\<close>

definition dropping :: world where
  "dropping = calm\<lparr>telegram := (\<lambda>n. if n = 1 then Rejected
                                      else Status 200 (TgResult True))\<rparr>"

definition batch :: "job list" where
  "batch = [aJob ''J3'', aJob ''J4'', aJob ''J5'']"

text \<open>A provider that rate-limits every message from the second on.\<close>

definition flooded :: world where
  "flooded = calm\<lparr>telegram := (\<lambda>n. if n = 0 then Status 200 (TgResult True)
                                     else Status 429 (TgResult False))\<rparr>"

text \<open>
  A page whose token has a payload that is not JSON, and an API that cannot be reached
  for the test of a token that is good for an hour.
\<close>

definition garbled :: world where
  "garbled = calm\<lparr>goto := (\<lambda>n. Storage [(''sessionToken'', ''eyJhbGciOiJIUzI1NiJ9.bm90IGpzb24.c2ln'')] [])\<rparr>"

definition untested :: world where
  "untested = calm\<lparr>Buffer_base64 := decode64, JSON_parse := parseJson,
     goto := (\<lambda>n. Storage [(''sessionToken'', token3600)] []),
     probe := (\<lambda>n. Rejected)\<rparr>"

text \<open>An API that answers the first listings request with 401 and cannot be reached after.\<close>

definition flaky :: world where
  "flaky = calm\<lparr>graphql := (\<lambda>n. if n = 0 then Status 401 NoJobData else Rejected)\<rparr>"

text \<open>A seen set of a thousand identifiers, none of them \<open>J3\<close>.\<close>

definition anId :: "nat \<Rightarrow> string" where
  "anId n = replicate (Suc n) CHR ''a''"

definition thousand :: "string list" where
  "thousand = map anId [0..<1000]"

text \<open>
  Two more tokens and a runtime that decodes them: one that expires 200 seconds after
  the start of the runs and carries no \<open>iat\<close> claim, one whose \<open>exp\<close> claim is 0.
  And the worlds whose page holds them.
\<close>

definition decodeMore :: "string \<Rightarrow> string" where
  \<open>decodeMore m =
     (if m = ''eyJleHAiOjE3MDAwMDAyMDB9'' then ''{"exp":1700000200}''
      else if m = ''eyJleHAiOjAsImlhdCI6MTY5OTk5NjYwMH0'' then ''{"exp":0,"iat":1699996600}''
      else [])\<close>

definition parseMore :: "string \<Rightarrow> json option" where
  \<open>parseMore p =
     (if p = ''{"exp":1700000200}'' then Some (JObj [(''exp'', JNum 1700000200)])
      else if p = ''{"exp":0,"iat":1699996600}''
        then Some (JObj [(''exp'', JNum 0), (''iat'', JNum 1699996600)])
      else None)\<close>

definition tokenNoIat :: string where
  "tokenNoIat = ''eyJhbGciOiJIUzI1NiJ9.eyJleHAiOjE3MDAwMDAyMDB9.c2ln''"

definition tokenExpZero :: string where
  "tokenExpZero = ''eyJhbGciOiJIUzI1NiJ9.eyJleHAiOjAsImlhdCI6MTY5OTk5NjYwMH0.c2ln''"

definition unissued :: world where
  "unissued = calm\<lparr>Buffer_base64 := decodeMore, JSON_parse := parseMore, clock := paced,
     goto := (\<lambda>n. Storage [(''sessionToken'', tokenNoIat)] [])\<rparr>"

definition zeroed :: world where
  "zeroed = calm\<lparr>Buffer_base64 := decodeMore, JSON_parse := parseMore, clock := paced,
     goto := (\<lambda>n. Storage [(''sessionToken'', tokenExpZero)] [])\<rparr>"

section \<open>Verification\<close>

subsection \<open>decodeJWT\<close>

lemma split_dot_not_Nil: "split_dot t \<noteq> []"
  by (induction t) (auto split: list.splits)

lemma join_split_dot: "join_dot (split_dot t) = t"
proof (induction t)
  case Nil
  then show ?case by simp
next
  case (Cons c cs)
  obtain p ps where ps: "split_dot cs = p # ps"
    using split_dot_not_Nil [of cs] by (cases "split_dot cs") auto
  show ?case
  proof (cases "c = CHR ''.''")
    case True
    with Cons ps show ?thesis by simp
  next
    case False
    with Cons ps show ?thesis by (cases ps) auto
  qed
qed

lemma split_dot_no_dot: "p \<in> set (split_dot t) \<Longrightarrow> CHR ''.'' \<notin> set p"
proof (induction t arbitrary: p)
  case Nil
  then show ?case by simp
next
  case (Cons c cs)
  obtain q qs where qs: "split_dot cs = q # qs"
    using split_dot_not_Nil [of cs] by (cases "split_dot cs") auto
  show ?case
  proof (cases "c = CHR ''.''")
    case True
    with Cons show ?thesis by auto
  next
    case False
    with Cons.prems qs have "p = c # q \<or> p \<in> set qs" by simp
    moreover have "CHR ''.'' \<notin> set q" using Cons.IH [of q] qs by simp
    moreover have "p \<in> set qs \<Longrightarrow> CHR ''.'' \<notin> set p" using Cons.IH [of p] qs by simp
    ultimately show ?thesis using False by auto
  qed
qed

lemma split_dot_plain: "CHR ''.'' \<notin> set a \<Longrightarrow> split_dot a = [a]"
  by (induction a) auto

lemma split_dot_append:
  "CHR ''.'' \<notin> set a \<Longrightarrow> split_dot (a @ CHR ''.'' # rest) = a # split_dot rest"
  by (induction a) auto

lemma split_dot_three:
  "split_dot t = [a, m, c] \<longleftrightarrow>
     t = a @ ''.'' @ m @ ''.'' @ c \<and> CHR ''.'' \<notin> set a \<and> CHR ''.'' \<notin> set m \<and> CHR ''.'' \<notin> set c"
proof
  assume h: "split_dot t = [a, m, c]"
  have "join_dot (split_dot t) = t" by (rule join_split_dot)
  with h have "t = a @ ''.'' @ m @ ''.'' @ c" by simp
  moreover have "CHR ''.'' \<notin> set a" "CHR ''.'' \<notin> set m" "CHR ''.'' \<notin> set c"
    using split_dot_no_dot [of _ t] h by simp_all
  ultimately show "t = a @ ''.'' @ m @ ''.'' @ c \<and> CHR ''.'' \<notin> set a \<and> CHR ''.'' \<notin> set m \<and> CHR ''.'' \<notin> set c"
    by simp
next
  assume "t = a @ ''.'' @ m @ ''.'' @ c \<and> CHR ''.'' \<notin> set a \<and> CHR ''.'' \<notin> set m \<and> CHR ''.'' \<notin> set c"
  then show "split_dot t = [a, m, c]"
    by (simp add: split_dot_append split_dot_plain)
qed

lemma length3: "length xs = 3 \<longleftrightarrow> (\<exists>a m c. xs = [a, m, c])"
  by (cases xs; cases "tl xs"; cases "tl (tl xs)") auto

lemma decodeJWT_three:
  assumes "split_dot token = [a, m, c]"
  shows "decodeJWT base64 parse token =
           (case parse (base64 m) of None \<Rightarrow> ReturnedNull | Some v \<Rightarrow> Returned v)"
  using assms by (simp add: decodeJWT_def decodeJWT_try_def split: option.splits)

lemma decodeJWT_other:
  assumes "length (split_dot token) \<noteq> 3"
  shows "decodeJWT base64 parse token = ReturnedNull"
  using assms by (simp add: decodeJWT_def decodeJWT_try_def)

lemma three_segments_split:
  "three_segments token m \<longleftrightarrow> (\<exists>a c. split_dot token = [a, m, c])"
  unfolding three_segments_def using split_dot_three [of token _ m] by simp


lemma three_segments_unique:
  "split_dot token = [a, m, c] \<Longrightarrow> three_segments token m' \<longleftrightarrow> m' = m"
  by (auto simp add: three_segments_split)

lemma three_segments_none:
  "length (split_dot token) \<noteq> 3 \<Longrightarrow> \<not> three_segments token m'"
  by (auto simp add: three_segments_split)

text \<open>
  C10. \<open>decodeJWT\<close> never throws, whatever the string and whatever the runtime's
  base64 decoder and JSON parser do: it returns the parsed payload exactly when the
  token has three dot-separated segments and the decoded middle segment parses, and
  \<open>null\<close> in every other case (another number of segments, or a middle segment that
  does not parse).
\<close>

theorem decodeJWT_total:
  "(\<forall>e. decodeJWT base64 parse token \<noteq> Thrown e) \<and>
   (decodeJWT base64 parse token = Returned v
      \<longleftrightarrow> (\<exists>m. three_segments token m \<and> parse (base64 m) = Some v)) \<and>
   (decodeJWT base64 parse token = ReturnedNull
      \<longleftrightarrow> \<not> (\<exists>m v'. three_segments token m \<and> parse (base64 m) = Some v'))"
proof (cases "length (split_dot token) = 3")
  case True
  then obtain a m c where amc: "split_dot token = [a, m, c]"
    by (auto simp add: length3)
  note seg = three_segments_unique [OF amc]
  note d = decodeJWT_three [OF amc, of base64 parse]
  show ?thesis
    by (cases "parse (base64 m)") (simp_all add: d seg)
next
  case False
  note seg = three_segments_none [OF False]
  show ?thesis
    by (simp add: decodeJWT_other [OF False] seg)
qed

theorem decodeJWT_total_witness:
  "decodeJWT (\<lambda>m. if m = ''eyJleHAiOjF9'' then ''{exp:1}'' else m)
             (\<lambda>p. if p = ''{exp:1}'' then Some (JObj [(''exp'', JNum 1)]) else None)
             ''eyJh.eyJleHAiOjF9.sig'' = Returned (JObj [(''exp'', JNum 1)])
   \<and> decodeJWT (\<lambda>m. m) (\<lambda>p. Some (JObj [])) ''no-dots-here'' = (ReturnedNull :: json outcome)"
proof -
  have seg: "three_segments ''eyJh.eyJleHAiOjF9.sig'' ''eyJleHAiOjF9''"
    by (simp add: three_segments_split)
  have none: "\<not> three_segments ''no-dots-here'' m" for m
    by (simp add: three_segments_split)
  have a: "decodeJWT (\<lambda>m. if m = ''eyJleHAiOjF9'' then ''{exp:1}'' else m)
             (\<lambda>p. if p = ''{exp:1}'' then Some (JObj [(''exp'', JNum 1)]) else None)
             ''eyJh.eyJleHAiOjF9.sig'' = Returned (JObj [(''exp'', JNum 1)])"
    using decodeJWT_total [of "(\<lambda>m. if m = ''eyJleHAiOjF9'' then ''{exp:1}'' else m)"
        "(\<lambda>p. if p = ''{exp:1}'' then Some (JObj [(''exp'', JNum 1)]) else None)"
        "''eyJh.eyJleHAiOjF9.sig''" "JObj [(''exp'', JNum 1)]"] seg
    by auto
  have b: "decodeJWT (\<lambda>m. m) (\<lambda>p. Some (JObj [])) ''no-dots-here'' = (ReturnedNull :: json outcome)"
    using decodeJWT_total [of "(\<lambda>m. m)" "(\<lambda>p. Some (JObj []))" "''no-dots-here''"] none
    by simp
  show ?thesis using a b by simp
qed

subsection \<open>State bookkeeping and the retries of extractAuthToken\<close>

lemma emit_simps [simp]:
  "seenJobIds (emit e s) = seenJobIds s"
  "currentAuthToken (emit e s) = currentAuthToken s"
  "tokenExpiryTime (emit e s) = tokenExpiryTime s"
  "browser (emit e s) = browser s"
  "launches (emit e s) = launches s"
  "visits (emit e s) = visits s"
  "probes (emit e s) = probes s"
  "fetches (emit e s) = fetches s"
  "sends (emit e s) = sends s"
  "trace (emit e s) = trace s @ [e]"
  by (simp_all add: emit_def)

lemma testToken_simps [simp]:
  "seenJobIds (testToken w t s) = seenJobIds s"
  "currentAuthToken (testToken w t s) = currentAuthToken s"
  "tokenExpiryTime (testToken w t s) = tokenExpiryTime s"
  "browser (testToken w t s) = browser s"
  "launches (testToken w t s) = launches s"
  "visits (testToken w t s) = visits s"
  "probes (testToken w t s) = probes s + 1"
  "fetches (testToken w t s) = fetches s"
  "sends (testToken w t s) = sends s"
  "trace (testToken w t s) = trace s @ [Tested t (probe w (probes s))]"
  by (simp_all add: testToken_def)

lemma extractAuthToken_attempt:
  "extractAuthToken w retryCount s =
     (case attempt w retryCount s of
        Finished r \<Rightarrow> r
      | Again s' \<Rightarrow> extractAuthToken w (retryCount + 1) s')"
  by (rule extractAuthToken.simps)

lemma storeAndTest_unchanged:
  "storeAndTest w token d ex s = (r, s') \<Longrightarrow>
     unchanged s s' \<and> visits s' = visits s
     \<and> (\<exists>evs. trace s' = trace s @ evs \<and> Wait 30000 \<notin> set evs)"
  by (auto simp add: storeAndTest_def unchanged_def split: option.splits)

lemma attempt_Again:
  "attempt w r s = Again s' \<Longrightarrow>
     r < maxRetries \<and>
     s' = emit (Wait 30000) (emit (Wait 15000) (emit Goto (s\<lparr>visits := visits s + 1\<rparr>)))"
  by (simp add: attempt_def Let_def split: page.splits option.splits if_splits)

lemma attempt_Finished:
  "attempt w r s = Finished (res, s') \<Longrightarrow>
     unchanged s s' \<and> visits s' = visits s + 1
     \<and> (\<exists>evs. trace s' = trace s @ Goto # evs \<and> Wait 30000 \<notin> set evs)"
  by (auto simp add: attempt_def Let_def unchanged_def
      split: page.splits option.splits if_splits dest!: storeAndTest_unchanged)

lemma unchanged_refl [simp]: "unchanged s s"
  by (simp add: unchanged_def)

lemma unchanged_trans: "unchanged s s1 \<Longrightarrow> unchanged s1 s2 \<Longrightarrow> unchanged s s2"
  by (simp add: unchanged_def)

lemma extractAuthToken_run:
  "extractAuthToken w r s = (res, s') \<Longrightarrow> r \<le> maxRetries \<Longrightarrow>
     unchanged s s' \<and> visits s < visits s' \<and> visits s' \<le> visits s + (maxRetries + 1 - r)
     \<and> (\<exists>evs. trace s' = trace s @ Goto # evs
            \<and> count_list evs (Wait 30000) = visits s' - visits s - 1)"
proof (induction "maxRetries - r" arbitrary: r s)
  case 0
  then have r: "\<not> r < maxRetries" by simp
  have "attempt w r s = Finished (res, s')"
  proof (cases "attempt w r s")
    case (Finished x)
    with "0.prems"(1) show ?thesis
      by (simp add: extractAuthToken_attempt [of w r s])
  next
    case (Again s1)
    with attempt_Again [OF Again] r show ?thesis by simp
  qed
  from attempt_Finished [OF this] "0.prems"(2)
  show ?case by (auto simp add: count_list_0_iff)
next
  case (Suc n)
  show ?case
  proof (cases "attempt w r s")
    case (Finished x)
    with Suc.prems(1) have "attempt w r s = Finished (res, s')"
      by (simp add: extractAuthToken_attempt [of w r s])
    from attempt_Finished [OF this] Suc.prems(2)
    show ?thesis by (auto simp add: count_list_0_iff)
  next
    case (Again s1)
    from attempt_Again [OF Again]
    have r: "r < maxRetries"
      and s1: "s1 = emit (Wait 30000) (emit (Wait 15000) (emit Goto (s\<lparr>visits := visits s + 1\<rparr>)))"
      by simp_all
    from Suc.prems(1) Again have rec: "extractAuthToken w (r + 1) s1 = (res, s')"
      by (simp add: extractAuthToken_attempt [of w r s])
    have "n = maxRetries - (r + 1)" using Suc.hyps(2) by simp
    from Suc.hyps(1) [OF this rec] r
    have ih: "unchanged s1 s'" "visits s1 < visits s'"
      "visits s' \<le> visits s1 + (maxRetries + 1 - (r + 1))"
      and "\<exists>evs. trace s' = trace s1 @ Goto # evs
            \<and> count_list evs (Wait 30000) = visits s' - visits s1 - 1"
      by simp_all
    then obtain evs0 where evs0: "trace s' = trace s1 @ Goto # evs0"
      "count_list evs0 (Wait 30000) = visits s' - visits s1 - 1" by blast
    define evs where "evs = Goto # evs0"
    have evs: "trace s' = trace s1 @ evs"
      "count_list evs (Wait 30000) = visits s' - visits s1 - 1"
      using evs0 by (simp_all add: evs_def)
    have v1: "visits s1 = visits s + 1" by (simp add: s1)
    have u: "unchanged s s1" by (simp add: s1 unchanged_def)
    have t1: "trace s1 = trace s @ [Goto, Wait 15000, Wait 30000]" by (simp add: s1)
    have "trace s' = trace s @ Goto # ([Wait 15000, Wait 30000] @ evs)"
      by (simp add: evs(1) t1)
    moreover have "count_list ([Wait 15000, Wait 30000] @ evs) (Wait 30000)
                     = visits s' - visits s - 1"
      using evs(2) v1 ih(2) by simp
    ultimately have "\<exists>evs. trace s' = trace s @ Goto # evs
            \<and> count_list evs (Wait 30000) = visits s' - visits s - 1" by blast
    with ih v1 r unchanged_trans [OF u ih(1)] show ?thesis by simp
  qed
qed

subsection \<open>The seen set\<close>

lemma length_slice_last: "length (slice_last n xs) = min n (length xs)"
  by (simp add: slice_last_def)

lemma set_seen_add_all: "set (seen_add_all seen ks) = set seen \<union> set ks"
  by (induction ks arbitrary: seen) (auto simp add: seen_add_def)

lemma seen_add_all_fresh:
  "k \<notin> set seen \<Longrightarrow> seen_add_all seen [k] = seen @ [k]"
  by (simp add: seen_add_def)

subsection \<open>Refreshing and fetching\<close>

lemma initializeBrowser_run:
  "initializeBrowser w s = (r, s') \<Longrightarrow>
     seenJobIds s' = seenJobIds s \<and> fetches s' = fetches s \<and> sends s' = sends s
     \<and> visits s' = visits s
     \<and> (\<exists>evs. trace s' = trace s @ Launch # evs)"
  by (auto simp add: initializeBrowser_def Let_def split: if_splits)

lemma refreshAuthToken_run:
  assumes "refreshAuthToken w s = (r, s')"
  shows "seenJobIds s' = seenJobIds s \<and> fetches s' = fetches s \<and> sends s' = sends s
     \<and> visits s \<le> visits s' \<and> (\<forall>t. r = Inr t \<longrightarrow> visits s < visits s')
     \<and> (\<exists>e evs. trace s' = trace s @ e # evs \<and> (e = Launch \<or> e = Goto))"
proof (cases "browser s")
  case True
  obtain r2 s2 where e: "extractAuthToken w 0 s = (r2, s2)"
    by (cases "extractAuthToken w 0 s")
  from extractAuthToken_run [OF e]
  have 2: "unchanged s s2" "visits s < visits s2"
    "\<exists>evs. trace s2 = trace s @ Goto # evs" by auto
  from assms True e have "s' = s2 \<or> s' = emit (LogError ''Error refreshing auth token'') s2"
    by (auto simp add: refreshAuthToken_def split: sum.splits)
  with 2 show ?thesis by (auto simp add: unchanged_def)
next
  case False
  obtain r1 s1 where i: "initializeBrowser w s = (r1, s1)"
    by (cases "initializeBrowser w s")
  note 1 = initializeBrowser_run [OF i]
  show ?thesis
  proof (cases r1)
    case (Inl err)
    with assms False i have "s' = emit (LogError ''Error refreshing auth token'') s1" "r = Inl err"
      by (simp_all add: refreshAuthToken_def)
    with 1 show ?thesis by auto
  next
    case (Inr u)
    obtain r2 s2 where e: "extractAuthToken w 0 s1 = (r2, s2)"
      by (cases "extractAuthToken w 0 s1")
    from extractAuthToken_run [OF e]
    have 2: "unchanged s1 s2" "visits s1 < visits s2"
      "\<exists>evs. trace s2 = trace s1 @ Goto # evs" by auto
    from assms False i Inr e
    have "s' = s2 \<or> s' = emit (LogError ''Error refreshing auth token'') s2"
      by (auto simp add: refreshAuthToken_def split: sum.splits)
    with 1 2 show ?thesis by (auto simp add: unchanged_def)
  qed
qed

text \<open>The state in which the request of a pass is sent.\<close>

lemma entry_run:
  assumes "(if isTokenExpired w s then refreshAuthToken w s else (Inr [], s)) = (r1, s1)"
  shows "seenJobIds s1 = seenJobIds s \<and> fetches s1 = fetches s \<and> sends s1 = sends s
     \<and> visits s \<le> visits s1 \<and> (\<exists>evs. trace s1 = trace s @ evs)"
proof (cases "isTokenExpired w s")
  case True
  with assms have "refreshAuthToken w s = (r1, s1)" by simp
  from refreshAuthToken_run [OF this] show ?thesis by auto
next
  case False
  with assms show ?thesis by simp
qed

lemma failed_inject [simp]:
  "failed s = Returns (jobs, s') \<longleftrightarrow> jobs = [] \<and> s' = emit (LogError ''Error fetching jobs'') s"
  "failed s \<noteq> Retry s3"
  by (auto simp add: failed_def)

lemma fetchRound_Returns:
  assumes "fetchRound w s = Returns (jobs, s')"
  shows "seenJobIds s' = seenJobIds s \<and> sends s' = sends s
     \<and> fetches s \<le> fetches s' \<and> fetches s' \<le> fetches s + 1 \<and> visits s \<le> visits s'
     \<and> (\<exists>evs. trace s' = trace s @ evs)"
proof -
  obtain r1 s1 where e: "(if isTokenExpired w s then refreshAuthToken w s else (Inr [], s)) = (r1, s1)"
    by (cases "if isTokenExpired w s then refreshAuthToken w s else (Inr [], s)")
  note 1 = entry_run [OF e]
  from assms e 1 show ?thesis
    unfolding fetchRound_def
    by (auto simp add: Let_def
        split: sum.splits option.splits if_splits reply.splits listing_body.splits prod.splits
        dest!: refreshAuthToken_run)
qed

lemma fetchRound_Retry:
  assumes "fetchRound w s = Retry s3"
  shows "seenJobIds s3 = seenJobIds s \<and> sends s3 = sends s
     \<and> fetches s3 = fetches s + 1 \<and> visits s < visits s3
     \<and> (\<exists>b. graphql w (fetches s) = Status 401 b)
     \<and> (\<exists>evs. trace s3 = trace s @ evs)"
proof -
  obtain r1 s1 where e: "(if isTokenExpired w s then refreshAuthToken w s else (Inr [], s)) = (r1, s1)"
    by (cases "if isTokenExpired w s then refreshAuthToken w s else (Inr [], s)")
  note 1 = entry_run [OF e]
  from assms e 1 show ?thesis
    unfolding fetchRound_def
    by (auto simp add: Let_def
        split: sum.splits option.splits if_splits reply.splits listing_body.splits prod.splits
        dest!: refreshAuthToken_run)
qed


lemma fetchAmazonJobs_Returns:
  "fetchRound w s = Returns r \<Longrightarrow> fetchAmazonJobs w s = Some r"
  by (subst fetchAmazonJobs.simps) simp

lemma fetchAmazonJobs_Retry:
  "fetchRound w s = Retry s3 \<Longrightarrow> fetchAmazonJobs w s = fetchAmazonJobs w s3"
  by (subst fetchAmazonJobs.simps) simp

lemma fetchAmazonJobs_run:
  assumes "fetchAmazonJobs w s = Some (jobs, s')"
  shows "seenJobIds s' = seenJobIds s \<and> sends s' = sends s
     \<and> fetches s \<le> fetches s' \<and> visits s \<le> visits s'
     \<and> fetches s' + visits s \<le> fetches s + 1 + visits s'
     \<and> (\<exists>evs. trace s' = trace s @ evs)"
proof -
  define P where "P = (\<lambda>(w::world) (s::state) (y::job list \<times> state).
     seenJobIds (snd y) = seenJobIds s \<and> sends (snd y) = sends s
     \<and> fetches s \<le> fetches (snd y) \<and> visits s \<le> visits (snd y)
     \<and> fetches (snd y) + visits s \<le> fetches s + 1 + visits (snd y)
     \<and> (\<exists>evs. trace (snd y) = trace s @ evs))"
  have "P w s (jobs, s')"
  proof (rule fetchAmazonJobs.raw_induct [where P = P, OF _ assms])
    fix f w s y
    assume ih: "\<And>w s y. f w s = Some y \<Longrightarrow> P w s y"
      and body: "(case fetchRound w s of Returns r \<Rightarrow> Some r | Retry s3 \<Rightarrow> f w s3) = Some y"
    show "P w s y"
    proof (cases "fetchRound w s")
      case (Returns r)
      with body have "fetchRound w s = Returns (fst y, snd y)" by simp
      from fetchRound_Returns [OF this] show ?thesis by (simp add: P_def)
    next
      case (Retry s3)
      with body have "f w s3 = Some y" by simp
      from ih [OF this] fetchRound_Retry [OF Retry] show ?thesis
        by (auto simp add: P_def)
    qed
  qed
  then show ?thesis by (simp add: P_def)
qed


subsection \<open>The poll cycle\<close>

lemma sendLoop_done:
  "\<not> (i < int (length jobs) \<and> i < int MAX_JOBS_PER_ALERT) \<Longrightarrow> sendLoop w jobs i s = Some s"
  by (subst sendLoop.simps) auto

lemma sendLoop_Continues:
  "i < int (length jobs) \<Longrightarrow> i < int MAX_JOBS_PER_ALERT \<Longrightarrow> sendOne w jobs i s = Continues j s1
     \<Longrightarrow> sendLoop w jobs i s = sendLoop w jobs (j + 1) s1"
  by (subst sendLoop.simps) simp

lemma sendLoop_Escapes:
  "i < int (length jobs) \<Longrightarrow> i < int MAX_JOBS_PER_ALERT \<Longrightarrow> sendOne w jobs i s = Escapes s1
     \<Longrightarrow> sendLoop w jobs i s = Some (emit (LogError ''Error sending Telegram alert'') s1)"
  by (subst sendLoop.simps) simp

subsection \<open>Retrying after a rejected token\<close>







text \<open>The definitions that a concrete run unfolds.\<close>

lemmas run_defs =
  fetchRound_def failed_def refreshAuthToken_def initializeBrowser_def
  extractAuthToken.simps attempt_def storeAndTest_def testToken_def
  isTokenExpired_def expiredWithin_def falsy_def now_def emit_def ok_def Let_def
  scanStorage_def method1_def scanValues_def startsWith_eyJ_def
  decodeJWT_def decodeJWT_try_def decodedExp_def decodedIat_def times1000_def newDate_def
  maxRetries_def

subsection \<open>Renewal of a token near its expiry\<close>

lemma scanValues_Some: "scanValues store = Some t \<Longrightarrow> t \<noteq> [] \<and> startsWith_eyJ t"
  by (auto simp add: scanValues_def find_Some_iff)

lemma scanStorage_Some: "scanStorage local session = Some t \<Longrightarrow> t \<noteq> [] \<and> startsWith_eyJ t"
  by (auto simp add: scanStorage_def method1_def split: option.splits if_splits
      dest: scanValues_Some)











lemmas runtime_defs = decode64_def parseJson_def token452_def token3600_def
  tokenPast_def token200_def



subsection \<open>Retries of the extractor near expiry\<close>

lemma candidate_attempt:
  assumes "candidate w s = Some (token, d, expiry, s2)"
  shows "attempt w retryCount s =
     (if expiry - now w s2 \<le> 0 then
        (if retryCount < maxRetries then Again (emit (Wait 30000) s2)
         else Finished (Inl ''Unable to get a valid token after 4 attempts'',
                        emit (LogError ''Error extracting auth token'') s2))
      else if expiry - now w s2 < 5 * 60 * 1000 then
        (if retryCount < maxRetries then Again (emit (Wait 30000) s2)
         else Finished (storeAndTest w token d (Some expiry) s2))
      else Finished (storeAndTest w token d (Some expiry) s2))"
  using assms
  by (auto simp add: candidate_def attempt_def Let_def split: page.splits option.splits)

text \<open>
  C6, amended. The candidate of an attempt is the token that its visit finds, when the
  payload of that token carries an \<open>exp\<close> claim that is truthy and denotes a valid
  date. When the candidate's expiry is in the past or less than five minutes ahead and
  fewer than three retries have been made, \<open>extractAuthToken\<close> waits thirty seconds
  and tries again with a new visit of the page. On the last retry an expired candidate
  makes the extraction fail, and a candidate with some life left whose \<open>iat\<close> claim
  denotes a valid date is stored, tested and returned as a last resort. A call makes at
  most four visits with a thirty-second wait before each but the first, all in the
  browser it was called with: no browser is launched between attempts.
\<close>

theorem extractAuthToken_retries_near_expiry:
  "(candidate w s = Some (token, d, expiry, s2)
      \<and> expiry - now w s2 < 5 * 60 * 1000 \<and> retryCount < maxRetries
    \<longrightarrow> extractAuthToken w retryCount s
          = extractAuthToken w (retryCount + 1) (emit (Wait 30000) s2))
   \<and> (candidate w s = Some (token, d, expiry, s2)
      \<and> expiry - now w s2 \<le> 0 \<and> maxRetries \<le> retryCount
    \<longrightarrow> extractAuthToken w retryCount s
          = (Inl ''Unable to get a valid token after 4 attempts'',
             emit (LogError ''Error extracting auth token'') s2))
   \<and> (candidate w s = Some (token, d, expiry, s2)
      \<and> 0 < expiry - now w s2 \<and> expiry - now w s2 < 5 * 60 * 1000
      \<and> maxRetries \<le> retryCount
      \<and> newDate (times1000 w (decodedIat d)) = Some issued
    \<longrightarrow> extractAuthToken w retryCount s
          = (Inr token,
             testToken w token
               (s2\<lparr>currentAuthToken := Some token, tokenExpiryTime := Some expiry\<rparr>)))
   \<and> (extractAuthToken w 0 s = (res, s')
    \<longrightarrow> visits s < visits s' \<and> visits s' \<le> visits s + 4
        \<and> launches s' = launches s \<and> browser s' = browser s
        \<and> (\<exists>evs. trace s' = trace s @ Goto # evs
               \<and> count_list evs (Wait 30000) = visits s' - visits s - 1))"
proof -
  have 1: "extractAuthToken w retryCount s
          = extractAuthToken w (retryCount + 1) (emit (Wait 30000) s2)"
    if "candidate w s = Some (token, d, expiry, s2)"
      "expiry - now w s2 < 5 * 60 * 1000" "retryCount < maxRetries"
    using that
    by (simp add: extractAuthToken_attempt [of w retryCount s] candidate_attempt [OF that(1)])
  have 2: "extractAuthToken w retryCount s
          = (Inl ''Unable to get a valid token after 4 attempts'',
             emit (LogError ''Error extracting auth token'') s2)"
    if "candidate w s = Some (token, d, expiry, s2)"
      "expiry - now w s2 \<le> 0" "maxRetries \<le> retryCount"
    using that
    by (simp add: extractAuthToken_attempt [of w retryCount s] candidate_attempt [OF that(1)])
  have 3: "extractAuthToken w retryCount s
          = (Inr token,
             testToken w token
               (s2\<lparr>currentAuthToken := Some token, tokenExpiryTime := Some expiry\<rparr>))"
    if "candidate w s = Some (token, d, expiry, s2)"
      "0 < expiry - now w s2" "expiry - now w s2 < 5 * 60 * 1000"
      "maxRetries \<le> retryCount" "newDate (times1000 w (decodedIat d)) = Some issued"
    using that
    by (simp add: extractAuthToken_attempt [of w retryCount s] candidate_attempt [OF that(1)]
        storeAndTest_def)
  have 4: "visits s < visits s' \<and> visits s' \<le> visits s + 4
        \<and> launches s' = launches s \<and> browser s' = browser s
        \<and> (\<exists>evs. trace s' = trace s @ Goto # evs
               \<and> count_list evs (Wait 30000) = visits s' - visits s - 1)"
    if "extractAuthToken w 0 s = (res, s')"
    using extractAuthToken_run [OF that] by (simp add: unchanged_def maxRetries_def)
  from 1 2 3 4 show ?thesis by blast
qed


lemmas more_defs = decodeMore_def parseMore_def tokenNoIat_def tokenExpZero_def

text \<open>
  C6 fails as stated in three details. The first is the fresh browser session for each
  attempt: the first visit finds a token with three minutes left, the second a good
  one; that makes two attempts and two navigations, and the launch count stays where it
  was. The second is the last resort: on the last retry a token with three minutes left
  that carries no \<open>iat\<close> claim is not accepted, since the line that prints its issue
  time throws. The third is the retry: a token whose \<open>exp\<close> claim is 0 is taken to
  carry no expiry and is stored at once with an assumed 59 minutes.
\<close>

theorem same_browser_counterexample:
  "extractAuthToken aging 0 steady
     = (Inr token3600,
        \<lparr>seenJobIds = [''J1'', ''J2''], currentAuthToken = Some token3600,
           tokenExpiryTime = Some 1700003600000, browser = True, launches = 1,
           visits = 3, probes = 1, fetches = 0, sends = 0,
           trace = [Goto, Wait 15000, Wait 30000, Goto, Wait 15000,
                    Tested token3600 (Status 200 ())]\<rparr>)
   \<and> launches steady = 1 \<and> visits steady = 1
   \<and> candidate unissued steady
     = Some (tokenNoIat, Returned (JObj [(''exp'', JNum 1700000200)]), 1700000200000,
             \<lparr>seenJobIds = [''J1'', ''J2''],
                currentAuthToken = Some ''eyJhbGciOiJIUzI1NiJ9'',
                tokenExpiryTime = Some 1700003000000, browser = True, launches = 1,
                visits = 2, probes = 0, fetches = 0, sends = 0,
                trace = [Goto, Wait 15000]\<rparr>)
   \<and> clock unissued 2 = 1700000017000
   \<and> extractAuthToken unissued 3 steady
     = (Inl ''RangeError: Invalid time value'',
        \<lparr>seenJobIds = [''J1'', ''J2''],
           currentAuthToken = Some ''eyJhbGciOiJIUzI1NiJ9'',
           tokenExpiryTime = Some 1700003000000, browser = True, launches = 1,
           visits = 2, probes = 0, fetches = 0, sends = 0,
           trace = [Goto, Wait 15000, LogError ''Error extracting auth token'']\<rparr>)
   \<and> extractAuthToken zeroed 0 steady
     = (Inr tokenExpZero,
        \<lparr>seenJobIds = [''J1'', ''J2''], currentAuthToken = Some tokenExpZero,
           tokenExpiryTime = Some 1700003557000, browser = True, launches = 1,
           visits = 2, probes = 0, fetches = 0, sends = 0,
           trace = [Goto, Wait 15000]\<rparr>)"
  by (simp add: candidate_def run_defs runtime_defs more_defs paced_def aging_def
      unissued_def zeroed_def calm_def steady_def)

theorem extractAuthToken_retries_near_expiry_witness:
  "candidate expiring steady
     = Some (token200,
             Returned (JObj [(''exp'', JNum 1700000200), (''iat'', JNum 1699996600)]),
             1700000200000,
             emit (Wait 15000) (emit Goto (steady\<lparr>visits := visits steady + 1\<rparr>)))
   \<and> extractAuthToken expiring 0 steady
       = extractAuthToken expiring (0 + 1)
           (emit (Wait 30000)
              (emit (Wait 15000) (emit Goto (steady\<lparr>visits := visits steady + 1\<rparr>))))
   \<and> extractAuthToken expiring 3 steady
       = (Inr token200,
          \<lparr>seenJobIds = [''J1'', ''J2''], currentAuthToken = Some token200,
             tokenExpiryTime = Some 1700000200000, browser = True, launches = 1,
             visits = 2, probes = 1, fetches = 0, sends = 0,
             trace = [Goto, Wait 15000, Tested token200 (Status 200 ())]\<rparr>)
   \<and> extractAuthToken expired 3 steady
       = (Inl ''Unable to get a valid token after 4 attempts'',
          \<lparr>seenJobIds = [''J1'', ''J2''],
             currentAuthToken = Some ''eyJhbGciOiJIUzI1NiJ9'',
             tokenExpiryTime = Some 1700003000000, browser = True, launches = 1,
             visits = 2, probes = 0, fetches = 0, sends = 0,
             trace = [Goto, Wait 15000, LogError ''Error extracting auth token'']\<rparr>)
   \<and> extractAuthToken expiring 0 steady
       = (Inr token200,
          \<lparr>seenJobIds = [''J1'', ''J2''], currentAuthToken = Some token200,
             tokenExpiryTime = Some 1700000200000, browser = True, launches = 1,
             visits = 5, probes = 1, fetches = 0, sends = 0,
             trace = [Goto, Wait 15000, Wait 30000, Goto, Wait 15000, Wait 30000,
                      Goto, Wait 15000, Wait 30000, Goto, Wait 15000,
                      Tested token200 (Status 200 ())]\<rparr>)
   \<and> (5::nat) \<le> visits steady + 4"
proof -
  define v where "v = emit (Wait 15000) (emit Goto (steady\<lparr>visits := visits steady + 1\<rparr>))"
  define d where "d = Returned (JObj [(''exp'', JNum 1700000200), (''iat'', JNum 1699996600)])"
  define d' where "d' = Returned (JObj [(''exp'', JNum 1699999000), (''iat'', JNum 1699995400)])"
  have c: "candidate expiring steady = Some (token200, d, 1700000200000, v)"
    by (simp add: candidate_def run_defs runtime_defs expiring_def calm_def steady_def
        v_def d_def)
  have c': "candidate expired steady = Some (tokenPast, d', 1699999000000, v)"
    by (simp add: candidate_def run_defs runtime_defs expired_def calm_def steady_def
        v_def d'_def)
  have n: "now expiring v = 1700000017000" "now expired v = 1700000017000"
    by (simp_all add: now_def v_def emit_def paced_def expiring_def expired_def calm_def steady_def)
  have i: "newDate (times1000 expiring (decodedIat d)) = Some 1699996600000"
    by (simp add: d_def decodedIat_def times1000_def newDate_def)
  note t = extractAuthToken_retries_near_expiry
  have 1: "extractAuthToken expiring 0 steady
         = extractAuthToken expiring (0 + 1) (emit (Wait 30000) v)"
    using t [of expiring steady token200 d 1700000200000 v 0] c n
    by (simp add: maxRetries_def)
  have 2: "extractAuthToken expired 3 steady
         = (Inl ''Unable to get a valid token after 4 attempts'',
            emit (LogError ''Error extracting auth token'') v)"
    using t [of expired steady tokenPast d' 1699999000000 v 3] c' n
    by (simp add: maxRetries_def)
  have 3: "extractAuthToken expiring 3 steady
         = (Inr token200,
            testToken expiring token200
              (v\<lparr>currentAuthToken := Some token200, tokenExpiryTime := Some 1700000200000\<rparr>))"
    using t [of expiring steady token200 d 1700000200000 v 3 1699996600000] c n i
    by (simp add: maxRetries_def)
  have 4: "extractAuthToken expiring 0 steady
       = (Inr token200,
          \<lparr>seenJobIds = [''J1'', ''J2''], currentAuthToken = Some token200,
             tokenExpiryTime = Some 1700000200000, browser = True, launches = 1,
             visits = 5, probes = 1, fetches = 0, sends = 0,
             trace = [Goto, Wait 15000, Wait 30000, Goto, Wait 15000, Wait 30000,
                      Goto, Wait 15000, Wait 30000, Goto, Wait 15000,
                      Tested token200 (Status 200 ())]\<rparr>)"
    by (simp add: run_defs runtime_defs paced_def expiring_def calm_def steady_def)
  define final where "final = \<lparr>seenJobIds = [''J1'', ''J2''], currentAuthToken = Some token200,
             tokenExpiryTime = Some 1700000200000, browser = True, launches = 1,
             visits = 5, probes = 1, fetches = 0, sends = 0,
             trace = [Goto, Wait 15000, Wait 30000, Goto, Wait 15000, Wait 30000,
                      Goto, Wait 15000, Wait 30000, Goto, Wait 15000,
                      Tested token200 (Status 200 ())]\<rparr>"
  have "visits final \<le> visits steady + 4"
    using t [of expiring steady token200 d 1700000200000 v 0 1699996600000
        "Inr token200" final] 4
    unfolding final_def by blast
  then have 5: "(5::nat) \<le> visits steady + 4"
    by (simp add: final_def)
  from c 1 2 3 4 5 show ?thesis
    unfolding v_def d_def
    by (simp add: testToken_def emit_def expiring_def calm_def steady_def)
qed

subsection \<open>Verification of an extracted token\<close>

lemma initializeFreshBrowser_run:
  "initializeFreshBrowser w s = (r, s1) \<Longrightarrow>
     probes s1 = probes s \<and> launches s1 = launches s + 1
     \<and> (\<exists>evs. trace s1 = trace s @ Launch # evs)"
  by (auto simp add: initializeFreshBrowser_def Let_def split: if_splits)

lemma extractAuthToken_module_run:
  "extractAuthToken_module w s = (r, s1) \<Longrightarrow>
     probes s1 = probes s \<and> launches s1 = launches s \<and> (\<exists>evs. trace s1 = trace s @ evs)"
  by (auto simp add: extractAuthToken_module_def Let_def split: page.splits option.splits)

lemma validateTokenWithServer_run:
  "validateTokenWithServer w token s = (valid, s1) \<Longrightarrow>
     probes s1 = probes s + 1 \<and> launches s1 = launches s
     \<and> (valid \<longleftrightarrow> probe w (probes s) = Status 200 ())
     \<and> (valid \<longrightarrow> trace s1 = trace s @ [Tested token (Status 200 ())])
     \<and> (\<exists>evs. trace s1 = trace s @ evs)"
  by (auto simp add: validateTokenWithServer_def Let_def split: reply.splits)

lemma tryOnce_run:
  assumes "tryOnce w s = (r, s')"
  shows "launches s' = launches s + 1 \<and> probes s \<le> probes s' \<and> probes s' \<le> probes s + 1
     \<and> (\<exists>evs. trace s' = trace s @ Launch # evs)
     \<and> (\<forall>token. r = Some token \<longrightarrow>
           probe w (probes s) = Status 200 () \<and> probes s' = probes s + 1
           \<and> (\<exists>evs. trace s' = trace s @ Launch # evs @ [Tested token (Status 200 ())]))"
proof -
  obtain r1 s1 where 1: "initializeFreshBrowser w s = (r1, s1)"
    by (cases "initializeFreshBrowser w s")
  obtain r2 s2 where 2: "extractAuthToken_module w s1 = (r2, s2)"
    by (cases "extractAuthToken_module w s1")
  note a = initializeFreshBrowser_run [OF 1] and b = extractAuthToken_module_run [OF 2]
  show ?thesis
  proof (cases r1)
    case (Inl e)
    with assms 1 a show ?thesis by (auto simp add: tryOnce_def)
  next
    case r1: (Inr u)
    show ?thesis
    proof (cases r2)
      case (Inl e)
      with assms 1 2 r1 a b show ?thesis by (auto simp add: tryOnce_def)
    next
      case r2: (Inr token)
      obtain valid s3 where 3: "validateTokenWithServer w token s2 = (valid, s3)"
        by (cases "validateTokenWithServer w token s2")
      note c = validateTokenWithServer_run [OF 3]
      from assms 1 2 3 r1 r2 have "s' = s3" "r = (if valid then Some token else None)"
        by (auto simp add: tryOnce_def split: bool.splits)
      with a b c show ?thesis by auto
    qed
  qed
qed

lemma pauseBeforeRetry_run:
  "probes (pauseBeforeRetry a r s) = probes s \<and> launches (pauseBeforeRetry a r s) = launches s
   \<and> (\<exists>evs. trace (pauseBeforeRetry a r s) = trace s @ evs)"
  by (simp add: pauseBeforeRetry_def)

lemma getValidToken_loop_verified:
  "getValidToken_loop w retries attempts s = (Inr token, s') \<Longrightarrow>
     probes s < probes s' \<and> probe w (probes s' - 1) = Status 200 ()
     \<and> launches s' \<le> launches s + (retries - attempts)
     \<and> (\<exists>evs. trace s' = trace s @ Launch # evs @ [Tested token (Status 200 ())])"
proof (induction "retries - attempts" arbitrary: attempts s)
  case 0
  then show ?case by (simp add: getValidToken_loop.simps [of w retries attempts s])
next
  case (Suc n)
  then have lt: "attempts < retries" by simp
  obtain r s3 where t: "tryOnce w s = (r, s3)" by (cases "tryOnce w s")
  note a = tryOnce_run [OF t]
  show ?case
  proof (cases r)
    case (Some tk)
    with Suc.prems t lt have "tk = token" "s' = s3"
      by (simp_all add: getValidToken_loop.simps [of w retries attempts s])
    with a Some lt show ?thesis by auto
  next
    case None
    define s4 where "s4 = pauseBeforeRetry (attempts + 1) retries s3"
    from Suc.prems t lt None
    have rec: "getValidToken_loop w retries (attempts + 1) s4 = (Inr token, s')"
      by (simp add: getValidToken_loop.simps [of w retries attempts s] s4_def)
    have "n = retries - (attempts + 1)" using Suc.hyps(2) by simp
    note ih = Suc.hyps(1) [OF this rec]
    note p = pauseBeforeRetry_run [of "attempts + 1" retries s3, folded s4_def]
    from ih obtain evs where e: "trace s' = trace s4 @ Launch # evs @ [Tested token (Status 200 ())]"
      by blast
    from p obtain evs1 where e1: "trace s4 = trace s3 @ evs1" by blast
    from a obtain evs0 where e0: "trace s3 = trace s @ Launch # evs0" by blast
    have "trace s' = trace s @ Launch # (evs0 @ evs1 @ Launch # evs) @ [Tested token (Status 200 ())]"
      by (simp add: e e1 e0)
    then have "\<exists>evs. trace s' = trace s @ Launch # evs @ [Tested token (Status 200 ())]" ..
    with ih p a lt show ?thesis by auto
  qed
qed

lemma getValidToken_loop_fails:
  "\<forall>n. probe w n \<noteq> Status 200 () \<Longrightarrow>
     \<exists>s'. getValidToken_loop w retries attempts s = (Inl ''Failed to obtain valid token'', s')"
proof (induction "retries - attempts" arbitrary: attempts s)
  case 0
  then show ?case by (simp add: getValidToken_loop.simps [of w retries attempts s])
next
  case (Suc n)
  then have lt: "attempts < retries" by simp
  obtain r s3 where t: "tryOnce w s = (r, s3)" by (cases "tryOnce w s")
  from tryOnce_run [OF t] Suc.prems have "r = None" by (cases r) auto
  with t lt have "getValidToken_loop w retries attempts s
      = getValidToken_loop w retries (attempts + 1) (pauseBeforeRetry (attempts + 1) retries s3)"
    by (simp add: getValidToken_loop.simps [of w retries attempts s])
  moreover have "n = retries - (attempts + 1)" using Suc.hyps(2) by simp
  ultimately show ?case using Suc.hyps(1) Suc.prems by simp
qed


lemma probe_update_simps [simp]:
  "now (w\<lparr>probe := p\<rparr>) s = now w s"
  "times1000 (w\<lparr>probe := p\<rparr>) v = times1000 w v"
  by (simp_all add: now_def times1000_def split: option.splits json.splits)

lemma storeAndTest_probe:
  "fst (storeAndTest (w\<lparr>probe := p\<rparr>) token d ex s) = fst (storeAndTest w token d ex s)
   \<and> currentAuthToken (snd (storeAndTest (w\<lparr>probe := p\<rparr>) token d ex s))
       = currentAuthToken (snd (storeAndTest w token d ex s))
   \<and> tokenExpiryTime (snd (storeAndTest (w\<lparr>probe := p\<rparr>) token d ex s))
       = tokenExpiryTime (snd (storeAndTest w token d ex s))"
  by (simp add: storeAndTest_def split: option.splits)

lemma attempt_probe:
  "(case (attempt (w\<lparr>probe := p\<rparr>) r s, attempt w r s) of
      (Again a, Again b) \<Rightarrow> a = b
    | (Finished x, Finished y) \<Rightarrow>
        fst x = fst y \<and> currentAuthToken (snd x) = currentAuthToken (snd y)
        \<and> tokenExpiryTime (snd x) = tokenExpiryTime (snd y)
    | _ \<Rightarrow> False)"
  by (simp add: attempt_def Let_def storeAndTest_probe split: page.split option.split)

lemma attempt_probe_Again:
  "attempt w r s = Again s1 \<Longrightarrow> attempt (w\<lparr>probe := p\<rparr>) r s = Again s1"
  using attempt_probe [where w = w and p = p and r = r and s = s]
  by (cases "attempt (w\<lparr>probe := p\<rparr>) r s") simp_all

lemma attempt_probe_Finished:
  "attempt w r s = Finished (res, s') \<Longrightarrow>
     \<exists>s''. attempt (w\<lparr>probe := p\<rparr>) r s = Finished (res, s'')
       \<and> currentAuthToken s'' = currentAuthToken s'
       \<and> tokenExpiryTime s'' = tokenExpiryTime s'"
  using attempt_probe [where w = w and p = p and r = r and s = s]
  by (cases "attempt (w\<lparr>probe := p\<rparr>) r s") auto

lemma extractAuthToken_probe:
  "fst (extractAuthToken (w\<lparr>probe := p\<rparr>) r s) = fst (extractAuthToken w r s)
   \<and> currentAuthToken (snd (extractAuthToken (w\<lparr>probe := p\<rparr>) r s))
       = currentAuthToken (snd (extractAuthToken w r s))
   \<and> tokenExpiryTime (snd (extractAuthToken (w\<lparr>probe := p\<rparr>) r s))
       = tokenExpiryTime (snd (extractAuthToken w r s))"
proof (induction "maxRetries - r" arbitrary: r s)
  case 0
  show ?case
  proof (cases "attempt w r s")
    case (Finished x)
    obtain res s' where x: "x = (res, s')" by (cases x)
    from attempt_probe_Finished [where w = w and r = r and s = s and res = res and s' = s' and p = p] Finished x show ?thesis
      by (auto simp add: extractAuthToken_attempt [of _ r s])
  next
    case (Again s1)
    with attempt_Again [OF Again] "0.hyps" show ?thesis by simp
  qed
next
  case (Suc n)
  show ?case
  proof (cases "attempt w r s")
    case (Finished x)
    obtain res s' where x: "x = (res, s')" by (cases x)
    from attempt_probe_Finished [where w = w and r = r and s = s and res = res and s' = s' and p = p] Finished x show ?thesis
      by (auto simp add: extractAuthToken_attempt [of _ r s])
  next
    case (Again s1)
    have "n = maxRetries - (r + 1)" using Suc.hyps(2) by simp
    from Suc.hyps(1) [OF this, of s1] Again attempt_probe_Again [OF Again, where p = p]
    show ?thesis
      by (simp add: extractAuthToken_attempt [of _ r s])
  qed
qed

text \<open>
  C3, amended. A token that \<open>getValidToken\<close> of the token module returns has passed
  a live verification: the last thing done before it is returned is a validation
  request for that token which the API answered with status 200, in a browser launched
  for that attempt. When no validation is answered with 200, whatever else the answer
  is, \<open>getValidToken\<close> fails. In auto-token-monitor.js the test is advisory: what
  \<open>extractAuthToken\<close> returns and the token it stores do not depend on the answers
  to the test.
\<close>

theorem credential_verification:
  "(getValidToken w retries s = (Inr token, s')
    \<longrightarrow> probes s < probes s' \<and> probe w (probes s' - 1) = Status 200 ()
        \<and> launches s' \<le> launches s + retries
        \<and> (\<exists>evs. trace s' = trace s @ Launch # evs @ [Tested token (Status 200 ())]))
   \<and> ((\<forall>n. probe w n \<noteq> Status 200 ())
    \<longrightarrow> (\<exists>s'. getValidToken w retries s = (Inl ''Failed to obtain valid token'', s')))
   \<and> fst (extractAuthToken (w\<lparr>probe := p\<rparr>) retryCount s1)
       = fst (extractAuthToken w retryCount s1)
   \<and> currentAuthToken (snd (extractAuthToken (w\<lparr>probe := p\<rparr>) retryCount s1))
       = currentAuthToken (snd (extractAuthToken w retryCount s1))"
  using getValidToken_loop_verified [of w retries 0 s token s']
    getValidToken_loop_fails [of w retries 0 s]
    extractAuthToken_probe [where w = w and p = p and r = retryCount and s = s1]
  by (simp add: getValidToken_def)

text \<open>
  C3 fails as stated for auto-token-monitor.js. The test of the extracted token is
  answered with status 500, and \<open>extractAuthToken\<close> has stored the token and returns
  it all the same. A token whose expiry does not decode is stored and returned without
  any test.
\<close>

theorem unverified_token_counterexample:
  "extractAuthToken failing_probe 0 steady
     = (Inr token3600,
        \<lparr>seenJobIds = [''J1'', ''J2''], currentAuthToken = Some token3600,
           tokenExpiryTime = Some 1700003600000, browser = True, launches = 1,
           visits = 2, probes = 1, fetches = 0, sends = 0,
           trace = [Goto, Wait 15000, Tested token3600 (Status 500 ())]\<rparr>)
   \<and> refreshAuthToken calm stale
     = (Inr ''eyJhbGciOiJIUzI1NiJ9'',
        \<lparr>seenJobIds = [''J1'', ''J2''],
           currentAuthToken = Some ''eyJhbGciOiJIUzI1NiJ9'',
           tokenExpiryTime = Some 1700003572000, browser = True, launches = 1,
           visits = 2, probes = 0, fetches = 0, sends = 0,
           trace = [Goto, Wait 15000]\<rparr>)"
  by (simp add: run_defs runtime_defs paced_def failing_probe_def calm_def stale_def steady_def)

lemmas module_defs =
  getValidToken_def getValidToken_loop.simps tryOnce_def initializeFreshBrowser_def
  extractAuthToken_module_def validateTokenWithServer_def pauseBeforeRetry_def

theorem credential_verification_witness:
  "getValidToken shortlived 3 steady
     = (Inr token452,
        \<lparr>seenJobIds = [''J1'', ''J2''],
           currentAuthToken = Some ''eyJhbGciOiJIUzI1NiJ9'',
           tokenExpiryTime = Some 1700003000000, browser = True, launches = 2,
           visits = 2, probes = 1, fetches = 0, sends = 0,
           trace = [Launch, Goto, Wait 15000, Tested token452 (Status 200 ())]\<rparr>)
   \<and> probe shortlived 0 = Status 200 ()
   \<and> (\<forall>n. probe failing_probe n \<noteq> Status 200 ())
   \<and> getValidToken failing_probe 3 steady
     = (Inl ''Failed to obtain valid token'',
        \<lparr>seenJobIds = [''J1'', ''J2''],
           currentAuthToken = Some ''eyJhbGciOiJIUzI1NiJ9'',
           tokenExpiryTime = Some 1700003000000, browser = True, launches = 4,
           visits = 4, probes = 3, fetches = 0, sends = 0,
           trace = [Launch, Goto, Wait 15000, Tested token3600 (Status 500 ()), Wait 10000,
                    Launch, Goto, Wait 15000, Tested token3600 (Status 500 ()), Wait 10000,
                    Launch, Goto, Wait 15000, Tested token3600 (Status 500 ())]\<rparr>)"
proof -
  define good where "good = \<lparr>seenJobIds = [''J1'', ''J2''],
           currentAuthToken = Some ''eyJhbGciOiJIUzI1NiJ9'',
           tokenExpiryTime = Some 1700003000000, browser = True, launches = 2,
           visits = 2, probes = 1, fetches = 0, sends = 0,
           trace = [Launch, Goto, Wait 15000, Tested token452 (Status 200 ())]\<rparr>"
  have g: "getValidToken shortlived 3 steady = (Inr token452, good)"
    by (simp add: module_defs run_defs runtime_defs shortlived_def calm_def steady_def good_def)
  have b: "getValidToken failing_probe 3 steady
     = (Inl ''Failed to obtain valid token'',
        \<lparr>seenJobIds = [''J1'', ''J2''],
           currentAuthToken = Some ''eyJhbGciOiJIUzI1NiJ9'',
           tokenExpiryTime = Some 1700003000000, browser = True, launches = 4,
           visits = 4, probes = 3, fetches = 0, sends = 0,
           trace = [Launch, Goto, Wait 15000, Tested token3600 (Status 500 ()), Wait 10000,
                    Launch, Goto, Wait 15000, Tested token3600 (Status 500 ()), Wait 10000,
                    Launch, Goto, Wait 15000, Tested token3600 (Status 500 ())]\<rparr>)"
    by (simp add: module_defs run_defs runtime_defs failing_probe_def calm_def steady_def)
  have n: "\<forall>n. probe failing_probe n \<noteq> Status 200 ()"
    by (simp add: failing_probe_def)
  have "probe shortlived (probes good - 1) = Status 200 ()"
    using credential_verification [where w = shortlived and retries = 3 and s = steady
        and token = token452 and s' = good] g
    by blast
  then have p: "probe shortlived 0 = Status 200 ()"
    by (simp add: good_def)
  have "\<exists>s'. getValidToken failing_probe 3 steady = (Inl ''Failed to obtain valid token'', s')"
    using credential_verification [where w = failing_probe and retries = 3 and s = steady] n
    by blast
  with g b n p show ?thesis unfolding good_def by blast
qed

subsection \<open>The dispatcher\<close>

lemma dispatched_simps [simp]:
  "dispatched [] = []"
  "dispatched (xs @ ys) = dispatched xs @ dispatched ys"
  "dispatched (Send k # xs) = Send k # dispatched xs"
  "dispatched (Wait d # xs) = (if d = 10000 then Wait d # dispatched xs else dispatched xs)"
  "dispatched (LogError m # xs) = dispatched xs"
  by (simp_all add: dispatched_def)

lemma sendLoop_cooldowns:
  assumes "i < length jobs" "i < MAX_JOBS_PER_ALERT"
  shows "\<forall>k<n. is429 (telegram w (sends s + k)) \<Longrightarrow>
     \<exists>s1. sendLoop w jobs (int i) s = sendLoop w jobs (int i) s1
        \<and> sends s1 = sends s + n
        \<and> dispatched (trace s1)
            = dispatched (trace s) @ concat (replicate n [Send (jobId (jobs ! i)), Wait 10000])"
proof (induction n arbitrary: s)
  case 0
  show ?case by (rule exI [of _ s]) simp
next
  case (Suc n)
  define s1 where "s1 = emit (Wait 10000) (emit (Send (jobId (jobs ! i))) (s\<lparr>sends := sends s + 1\<rparr>))"
  from Suc.prems have "is429 (telegram w (sends s))" by force
  then have one: "sendOne w jobs (int i) s = Continues (int i - 1) s1"
    by (auto simp add: sendOne_def is429_def s1_def Let_def split: reply.splits)
  from assms have "sendLoop w jobs (int i) s = sendLoop w jobs (int i - 1 + 1) s1"
    by (intro sendLoop_Continues [OF _ _ one]) simp_all
  then have step: "sendLoop w jobs (int i) s = sendLoop w jobs (int i) s1" by simp
  have "\<forall>k<n. is429 (telegram w (sends s1 + k))"
    using Suc.prems by (auto simp add: s1_def)
  from Suc.IH [OF this] obtain s2 where
    2: "sendLoop w jobs (int i) s1 = sendLoop w jobs (int i) s2"
       "sends s2 = sends s1 + n"
       "dispatched (trace s2)
          = dispatched (trace s1) @ concat (replicate n [Send (jobId (jobs ! i)), Wait 10000])"
    by blast
  show ?case
  proof (rule exI [of _ s2], intro conjI)
    show "sendLoop w jobs (int i) s = sendLoop w jobs (int i) s2" using step 2(1) by simp
    show "sends s2 = sends s + Suc n" using 2(2) by (simp add: s1_def)
    show "dispatched (trace s2)
            = dispatched (trace s) @ concat (replicate (Suc n) [Send (jobId (jobs ! i)), Wait 10000])"
      using 2(3) by (simp add: s1_def)
  qed
qed

lemma sendLoop_settled:
  assumes "i < length jobs" "i < MAX_JOBS_PER_ALERT" "settles (telegram w (sends s))"
  shows "\<exists>s1. sendLoop w jobs (int i) s = sendLoop w jobs (int i + 1) s1
        \<and> sends s1 = sends s + 1
        \<and> dispatched (trace s1) = dispatched (trace s) @ [Send (jobId (jobs ! i))]"
proof -
  from assms(3) obtain st body where
    r: "telegram w (sends s) = Status st body" "st \<noteq> 429" "ok st \<longrightarrow> body \<noteq> TgBadJson"
    by (auto simp add: settles_def split: reply.splits)
  have "\<exists>s1. sendOne w jobs (int i) s = Continues (int i) s1
        \<and> sends s1 = sends s + 1
        \<and> dispatched (trace s1) = dispatched (trace s) @ [Send (jobId (jobs ! i))]"
  proof (cases "ok st")
    case False
    with r show ?thesis by (simp add: sendOne_def Let_def)
  next
    case True
    with r obtain delivered where "body = TgResult delivered" by (cases body) auto
    with True r show ?thesis by (simp add: sendOne_def Let_def)
  qed
  then obtain s1 where
    one: "sendOne w jobs (int i) s = Continues (int i) s1"
    and 1: "sends s1 = sends s + 1"
      "dispatched (trace s1) = dispatched (trace s) @ [Send (jobId (jobs ! i))]"
    by blast
  from assms(1,2) have "sendLoop w jobs (int i) s = sendLoop w jobs (int i + 1) s1"
    by (intro sendLoop_Continues [OF _ _ one]) simp_all
  with 1 show ?thesis by blast
qed

lemma reply_cases: "is429 r \<or> settles r \<or> throws r"
  by (auto simp add: is429_def settles_def throws_def split: reply.splits)

lemma sendLoop_prefix:
  "i + length ns \<le> min (length jobs) MAX_JOBS_PER_ALERT \<Longrightarrow> follows w (sends s) ns \<Longrightarrow>
     \<exists>s'. sendLoop w jobs (int i) s = sendLoop w jobs (int (i + length ns)) s'
        \<and> sends s' = sends s + sum_list ns + length ns
        \<and> dispatched (trace s') = dispatched (trace s) @ expected (drop i jobs) ns"
proof (induction ns arbitrary: i s)
  case Nil
  show ?case
    by (rule exI [of _ s]) (cases "drop i jobs", simp_all)
next
  case (Cons n ns)
  then have i: "i < length jobs" "i < MAX_JOBS_PER_ALERT" by auto
  from Cons.prems(2) have f: "\<forall>k<n. is429 (telegram w (sends s + k))"
    "settles (telegram w (sends s + n))" "follows w (sends s + n + 1) ns" by simp_all
  from sendLoop_cooldowns [OF i f(1)] obtain s1 where
    1: "sendLoop w jobs (int i) s = sendLoop w jobs (int i) s1" "sends s1 = sends s + n"
       "dispatched (trace s1)
          = dispatched (trace s) @ concat (replicate n [Send (jobId (jobs ! i)), Wait 10000])"
    by blast
  from f(2) 1(2) have "settles (telegram w (sends s1))" by simp
  from sendLoop_settled [OF i this] obtain s2 where
    2: "sendLoop w jobs (int i) s1 = sendLoop w jobs (int i + 1) s2" "sends s2 = sends s1 + 1"
       "dispatched (trace s2) = dispatched (trace s1) @ [Send (jobId (jobs ! i))]"
    by blast
  have "Suc i + length ns \<le> min (length jobs) MAX_JOBS_PER_ALERT" using Cons.prems(1) by simp
  moreover have "follows w (sends s2) ns" using f(3) 1(2) 2(2) by simp
  ultimately obtain s' where
    3: "sendLoop w jobs (int (Suc i)) s2 = sendLoop w jobs (int (Suc i + length ns)) s'"
       "sends s' = sends s2 + sum_list ns + length ns"
       "dispatched (trace s') = dispatched (trace s2) @ expected (drop (Suc i) jobs) ns"
    using Cons.IH [of "Suc i" s2] by blast
  have d: "drop i jobs = jobs ! i # drop (Suc i) jobs"
    using i(1) by (simp add: Cons_nth_drop_Suc)
  show ?case
  proof (rule exI [of _ s'], intro conjI)
    have "sendLoop w jobs (int i + 1) s2 = sendLoop w jobs (int (i + length (n # ns))) s'"
      using 3(1) by (simp add: add.commute)
    with 1(1) 2(1)
    show "sendLoop w jobs (int i) s = sendLoop w jobs (int (i + length (n # ns))) s'" by simp
    show "sends s' = sends s + sum_list (n # ns) + length (n # ns)"
      using 1(2) 2(2) 3(2) by simp
    show "dispatched (trace s') = dispatched (trace s) @ expected (drop i jobs) (n # ns)"
      using 1(3) 2(3) 3(3) by (simp add: d)
  qed
qed

lemma sendLoop_thrown:
  assumes "i < length jobs" "i < MAX_JOBS_PER_ALERT" "throws (telegram w (sends s))"
  shows "sendLoop w jobs (int i) s
     = Some (emit (LogError ''Error sending Telegram alert'')
               (emit (Send (jobId (jobs ! i))) (s\<lparr>sends := sends s + 1\<rparr>)))"
proof -
  from assms(3)
  have "sendOne w jobs (int i) s = Escapes (emit (Send (jobId (jobs ! i))) (s\<lparr>sends := sends s + 1\<rparr>))"
    by (auto simp add: sendOne_def throws_def Let_def split: reply.splits tg_body.splits)
  from sendLoop_Escapes [OF _ _ this] assms(1,2) show ?thesis by simp
qed

lemma sendLoop_starved:
  assumes "i < length jobs" "i < MAX_JOBS_PER_ALERT" "\<forall>k. is429 (telegram w (sends s + k))"
  shows "sendLoop w jobs (int i) s = None"
proof (cases "sendLoop w jobs (int i) s")
  case None
  then show ?thesis .
next
  case (Some y)
  define P where "P = (\<lambda>(w::world) (jobs::job list) (j::int) (s::state) (y::state).
     \<not> (0 \<le> j \<and> j < int (length jobs) \<and> j < int MAX_JOBS_PER_ALERT
        \<and> (\<forall>k. is429 (telegram w (sends s + k)))))"
  have "P w jobs (int i) s y"
  proof (rule sendLoop.raw_induct [where P = P, OF _ Some])
    fix f w jobs j s y
    assume ih: "\<And>w jobs j s y. f w jobs j s = Some y \<Longrightarrow> P w jobs j s y"
      and body: "(if j < int (length jobs) \<and> j < int MAX_JOBS_PER_ALERT
           then case sendOne w jobs j s of
                  Escapes s1 \<Rightarrow> Some (emit (LogError ''Error sending Telegram alert'') s1)
                | Continues j' s1 \<Rightarrow> f w jobs (j' + 1) s1
           else Some s) = Some y"
    show "P w jobs j s y"
      unfolding P_def
    proof
      assume c: "0 \<le> j \<and> j < int (length jobs) \<and> j < int MAX_JOBS_PER_ALERT
        \<and> (\<forall>k. is429 (telegram w (sends s + k)))"
      define s1 where "s1 = emit (Wait 10000) (emit (Send (jobId (jobs ! nat j))) (s\<lparr>sends := sends s + 1\<rparr>))"
      from c have "is429 (telegram w (sends s + 0))" by blast
      then have "sendOne w jobs j s = Continues (j - 1) s1"
        by (auto simp add: sendOne_def is429_def s1_def Let_def split: reply.splits)
      with body c have "f w jobs j s1 = Some y" by simp
      from ih [OF this] have "\<not> (\<forall>k. is429 (telegram w (sends s1 + k)))"
        using c by (simp add: P_def)
      then obtain k where "\<not> is429 (telegram w (sends s1 + k))" by blast
      then have "\<not> is429 (telegram w (sends s + Suc k))" by (simp add: s1_def)
      with c show False by blast
    qed
  qed
  with assms show ?thesis by (simp add: P_def)
qed

text \<open>
  C8, amended. The dispatcher takes the first 999 items of its batch in order. While the
  provider answers an item with status 429, the item is sent again after a ten-second
  cooldown, and only when it is answered otherwise does the next item go out; an item
  that was answered is not sent again. An item answered with another error status, or
  with a success status and a readable body whatever its \<open>ok\<close> field, does not stop the
  ones after it: when every item is so answered after its rate limits, the dispatcher
  returns having sent each in turn. When an item fails without a readable answer (the
  request is rejected, or the body of a success cannot be parsed), the error leaves the
  loop: it is logged, the items after it are not sent, and the dispatcher returns. When
  the provider never stops answering 429 to an item, the dispatcher does not return.
  With a 429 on the second of three items the sends are item 1, item 2, cooldown,
  item 2, item 3.
\<close>

theorem dispatcher_resends_on_429:
  "telegramConfigured w \<and> follows w (sends s) ns \<and> p = sends s + sum_list ns + length ns
   \<longrightarrow>
     (length ns = min (length jobs) MAX_JOBS_PER_ALERT
      \<longrightarrow> (\<exists>s'. sendTelegramAlert w jobs s = Some s' \<and> sends s' = p
             \<and> dispatched (trace s') = dispatched (trace s) @ expected jobs ns))
     \<and> (length ns < min (length jobs) MAX_JOBS_PER_ALERT
          \<and> (\<forall>k<n. is429 (telegram w (p + k))) \<and> throws (telegram w (p + n))
      \<longrightarrow> (\<exists>s'. sendTelegramAlert w jobs s = Some s' \<and> sends s' = p + n + 1
             \<and> dispatched (trace s')
                 = dispatched (trace s) @ expected jobs ns
                   @ concat (replicate n [Send (jobId (jobs ! length ns)), Wait 10000])
                   @ [Send (jobId (jobs ! length ns))]
             \<and> last (trace s') = LogError ''Error sending Telegram alert''))
     \<and> (length ns < min (length jobs) MAX_JOBS_PER_ALERT
          \<and> (\<forall>k. is429 (telegram w (p + k)))
      \<longrightarrow> sendTelegramAlert w jobs s = None)"
proof (intro impI, elim conjE)
  assume c: "telegramConfigured w" and f: "follows w (sends s) ns"
    and p: "p = sends s + sum_list ns + length ns"
  have pre: "\<exists>s'. sendLoop w jobs (int 0) s = sendLoop w jobs (int (0 + length ns)) s'
        \<and> sends s' = p
        \<and> dispatched (trace s') = dispatched (trace s) @ expected jobs ns"
    if "length ns \<le> min (length jobs) MAX_JOBS_PER_ALERT"
    using sendLoop_prefix [of 0 ns jobs w s] that f p by simp
  have A: "\<exists>s'. sendTelegramAlert w jobs s = Some s' \<and> sends s' = p
             \<and> dispatched (trace s') = dispatched (trace s) @ expected jobs ns"
    if l: "length ns = min (length jobs) MAX_JOBS_PER_ALERT"
  proof -
    from pre l obtain s' where
      1: "sendLoop w jobs (int 0) s = sendLoop w jobs (int (0 + length ns)) s'"
         "sends s' = p" "dispatched (trace s') = dispatched (trace s) @ expected jobs ns"
      by auto
    have "sendLoop w jobs (int (0 + length ns)) s' = Some s'"
      by (rule sendLoop_done) (use l in auto)
    with 1 c show ?thesis by (auto simp add: sendTelegramAlert_def)
  qed
  have B: "\<exists>s'. sendTelegramAlert w jobs s = Some s' \<and> sends s' = p + n + 1
             \<and> dispatched (trace s')
                 = dispatched (trace s) @ expected jobs ns
                   @ concat (replicate n [Send (jobId (jobs ! length ns)), Wait 10000])
                   @ [Send (jobId (jobs ! length ns))]
             \<and> last (trace s') = LogError ''Error sending Telegram alert''"
    if l: "length ns < min (length jobs) MAX_JOBS_PER_ALERT"
      and r: "\<forall>k<n. is429 (telegram w (p + k))" and t: "throws (telegram w (p + n))"
  proof -
    from l have i: "length ns < length jobs" "length ns < MAX_JOBS_PER_ALERT" by simp_all
    from pre l obtain s1 where
      1: "sendLoop w jobs (int 0) s = sendLoop w jobs (int (0 + length ns)) s1"
         "sends s1 = p" "dispatched (trace s1) = dispatched (trace s) @ expected jobs ns"
      by auto
    from r 1(2) have "\<forall>k<n. is429 (telegram w (sends s1 + k))" by simp
    from sendLoop_cooldowns [OF i this] obtain s2 where
      2: "sendLoop w jobs (int (length ns)) s1 = sendLoop w jobs (int (length ns)) s2"
         "sends s2 = sends s1 + n"
         "dispatched (trace s2)
            = dispatched (trace s1)
              @ concat (replicate n [Send (jobId (jobs ! length ns)), Wait 10000])"
      by blast
    from t 1(2) 2(2) have "throws (telegram w (sends s2))" by simp
    note 3 = sendLoop_thrown [OF i this]
    define s' where "s' = emit (LogError ''Error sending Telegram alert'')
               (emit (Send (jobId (jobs ! length ns))) (s2\<lparr>sends := sends s2 + 1\<rparr>))"
    have "sendTelegramAlert w jobs s = Some s'"
      using c 1(1) 2(1) 3 by (simp add: sendTelegramAlert_def s'_def)
    moreover have "sends s' = p + n + 1" using 1(2) 2(2) by (simp add: s'_def)
    moreover have "dispatched (trace s')
                 = dispatched (trace s) @ expected jobs ns
                   @ concat (replicate n [Send (jobId (jobs ! length ns)), Wait 10000])
                   @ [Send (jobId (jobs ! length ns))]"
      using 1(3) 2(3) by (simp add: s'_def)
    moreover have "last (trace s') = LogError ''Error sending Telegram alert''"
      by (simp add: s'_def)
    ultimately show ?thesis by blast
  qed
  have C: "sendTelegramAlert w jobs s = None"
    if l: "length ns < min (length jobs) MAX_JOBS_PER_ALERT"
      and r: "\<forall>k. is429 (telegram w (p + k))"
  proof -
    from l have i: "length ns < length jobs" "length ns < MAX_JOBS_PER_ALERT" by simp_all
    from pre l obtain s1 where
      1: "sendLoop w jobs (int 0) s = sendLoop w jobs (int (0 + length ns)) s1"
         "sends s1 = p"
      by auto
    from r 1(2) have "\<forall>k. is429 (telegram w (sends s1 + k))" by simp
    from sendLoop_starved [OF i this] 1(1) c show ?thesis
      by (simp add: sendTelegramAlert_def)
  qed
  from A B C
  show "(length ns = min (length jobs) MAX_JOBS_PER_ALERT
      \<longrightarrow> (\<exists>s'. sendTelegramAlert w jobs s = Some s' \<and> sends s' = p
             \<and> dispatched (trace s') = dispatched (trace s) @ expected jobs ns))
     \<and> (length ns < min (length jobs) MAX_JOBS_PER_ALERT
          \<and> (\<forall>k<n. is429 (telegram w (p + k))) \<and> throws (telegram w (p + n))
      \<longrightarrow> (\<exists>s'. sendTelegramAlert w jobs s = Some s' \<and> sends s' = p + n + 1
             \<and> dispatched (trace s')
                 = dispatched (trace s) @ expected jobs ns
                   @ concat (replicate n [Send (jobId (jobs ! length ns)), Wait 10000])
                   @ [Send (jobId (jobs ! length ns))]
             \<and> last (trace s') = LogError ''Error sending Telegram alert''))
     \<and> (length ns < min (length jobs) MAX_JOBS_PER_ALERT
          \<and> (\<forall>k. is429 (telegram w (p + k)))
      \<longrightarrow> sendTelegramAlert w jobs s = None)"
    by blast
qed


lemmas send_defs = sendTelegramAlert_def sendLoop.simps sendOne_def emit_def ok_def Let_def
  MAX_JOBS_PER_ALERT_def batch_def aJob_def steady_def calm_def

text \<open>
  C8 fails as stated for a delivery that fails without a response. The connection drops
  on the second of three messages: the error leaves the loop for the \<open>catch\<close> of the
  function, which logs it, and the third item is never sent.
\<close>

theorem rejected_send_ends_batch_counterexample:
  "telegram dropping 1 = Rejected
   \<and> sendTelegramAlert dropping batch steady
       = Some \<lparr>seenJobIds = [''J1'', ''J2''],
             currentAuthToken = Some ''eyJhbGciOiJIUzI1NiJ9'',
             tokenExpiryTime = Some 1700003000000, browser = True, launches = 1,
             visits = 1, probes = 0, fetches = 0, sends = 2,
             trace = [Send ''J3'', Wait 2000, Send ''J4'',
                      LogError ''Error sending Telegram alert'']\<rparr>"
  by (simp add: send_defs dropping_def)

theorem dispatcher_resends_on_429_witness:
  "telegramConfigured throttled
   \<and> length [0, 1, 0 :: nat] = min (length batch) MAX_JOBS_PER_ALERT
   \<and> follows throttled (sends steady) [0, 1, 0]
   \<and> sendTelegramAlert throttled batch steady
       = Some \<lparr>seenJobIds = [''J1'', ''J2''],
             currentAuthToken = Some ''eyJhbGciOiJIUzI1NiJ9'',
             tokenExpiryTime = Some 1700003000000, browser = True, launches = 1,
             visits = 1, probes = 0, fetches = 0, sends = 4,
             trace = [Send ''J3'', Wait 2000, Send ''J4'', Wait 10000, Send ''J4'',
                      Wait 2000, Send ''J5'']\<rparr>
   \<and> expected batch [0, 1, 0]
       = [Send ''J3'', Send ''J4'', Wait 10000, Send ''J4'', Send ''J5'']
   \<and> follows refusing (sends steady) [0, 0, 0]
   \<and> sendTelegramAlert refusing batch steady
       = Some \<lparr>seenJobIds = [''J1'', ''J2''],
             currentAuthToken = Some ''eyJhbGciOiJIUzI1NiJ9'',
             tokenExpiryTime = Some 1700003000000, browser = True, launches = 1,
             visits = 1, probes = 0, fetches = 0, sends = 3,
             trace = [Send ''J3'', Wait 2000, Send ''J4'',
                      LogError ''Telegram API error'', Send ''J5'']\<rparr>
   \<and> expected batch [0, 0, 0] = [Send ''J3'', Send ''J4'', Send ''J5'']
   \<and> follows dropping (sends steady) [0] \<and> throws (telegram dropping 1)
   \<and> (\<exists>s'. sendTelegramAlert dropping batch steady = Some s' \<and> sends s' = 2
          \<and> dispatched (trace s') = [Send ''J3'', Send ''J4'']
          \<and> last (trace s') = LogError ''Error sending Telegram alert'')
   \<and> follows flooded (sends steady) [0] \<and> (\<forall>k. is429 (telegram flooded (1 + k)))
   \<and> sendTelegramAlert flooded batch steady = None"
proof -
  have l: "length batch = 3" "min (length batch) MAX_JOBS_PER_ALERT = 3"
    by (simp_all add: batch_def MAX_JOBS_PER_ALERT_def)
  have s0: "sends steady = 0" "trace steady = []" by (simp_all add: steady_def)
  have a: "telegramConfigured throttled" "follows throttled (sends steady) [0, 1, 0]"
    by (simp_all add: throttled_def calm_def steady_def is429_def settles_def ok_def)
  have b: "telegramConfigured refusing" "follows refusing (sends steady) [0, 0, 0]"
    by (simp_all add: refusing_def calm_def steady_def is429_def settles_def ok_def)
  have c: "telegramConfigured dropping" "follows dropping (sends steady) [0]"
    "throws (telegram dropping 1)"
    by (simp_all add: dropping_def calm_def steady_def is429_def settles_def throws_def ok_def)
  have d: "telegramConfigured flooded" "follows flooded (sends steady) [0]"
    "\<forall>k. is429 (telegram flooded (1 + k))"
    by (simp_all add: flooded_def calm_def steady_def is429_def settles_def ok_def)
  have e: "expected batch [0, 1, 0]
       = [Send ''J3'', Send ''J4'', Wait 10000, Send ''J4'', Send ''J5'']"
    "expected batch [0, 0, 0] = [Send ''J3'', Send ''J4'', Send ''J5'']"
    "expected batch [0] = [Send ''J3'']" "jobId (batch ! 1) = ''J4''"
    by (simp_all add: batch_def aJob_def)
  from dispatcher_resends_on_429 [where w = throttled and s = steady and ns = "[0, 1, 0]"
      and p = 4 and jobs = batch] a l s0
  have A: "\<exists>s'. sendTelegramAlert throttled batch steady = Some s' \<and> sends s' = 4
      \<and> dispatched (trace s') = expected batch [0, 1, 0]"
    by simp
  from dispatcher_resends_on_429 [where w = refusing and s = steady and ns = "[0, 0, 0]"
      and p = 3 and jobs = batch] b l s0
  have B: "\<exists>s'. sendTelegramAlert refusing batch steady = Some s' \<and> sends s' = 3
      \<and> dispatched (trace s') = expected batch [0, 0, 0]"
    by simp
  from dispatcher_resends_on_429 [where w = dropping and s = steady and ns = "[0]"
      and p = 1 and jobs = batch and n = 0] c l s0 e
  have C: "\<exists>s'. sendTelegramAlert dropping batch steady = Some s' \<and> sends s' = 2
          \<and> dispatched (trace s') = [Send ''J3'', Send ''J4'']
          \<and> last (trace s') = LogError ''Error sending Telegram alert''"
    by (simp add: numeral_2_eq_2)
  from dispatcher_resends_on_429 [where w = flooded and s = steady and ns = "[0]"
      and p = 1 and jobs = batch] d l s0
  have D: "sendTelegramAlert flooded batch steady = None"
    by simp
  have A': "sendTelegramAlert throttled batch steady
       = Some \<lparr>seenJobIds = [''J1'', ''J2''],
             currentAuthToken = Some ''eyJhbGciOiJIUzI1NiJ9'',
             tokenExpiryTime = Some 1700003000000, browser = True, launches = 1,
             visits = 1, probes = 0, fetches = 0, sends = 4,
             trace = [Send ''J3'', Wait 2000, Send ''J4'', Wait 10000, Send ''J4'',
                      Wait 2000, Send ''J5'']\<rparr>"
    by (simp add: send_defs throttled_def)
  have B': "sendTelegramAlert refusing batch steady
       = Some \<lparr>seenJobIds = [''J1'', ''J2''],
             currentAuthToken = Some ''eyJhbGciOiJIUzI1NiJ9'',
             tokenExpiryTime = Some 1700003000000, browser = True, launches = 1,
             visits = 1, probes = 0, fetches = 0, sends = 3,
             trace = [Send ''J3'', Wait 2000, Send ''J4'',
                      LogError ''Telegram API error'', Send ''J5'']\<rparr>"
    by (simp add: send_defs refusing_def)
  from a b c d e(1,2) l A' B' C D show ?thesis by simp
qed

subsection \<open>What a cycle emits\<close>

lemma newJobs_filter: "newJobs jobs seen = filter (\<lambda>job. jobId job \<notin> set seen) jobs"
  by (simp add: newJobs_def seen_has_def)

lemma afterFetch_emits:
  "fst (afterFetch jobs seen) = filter (\<lambda>job. jobId job \<notin> set seen) jobs"
  by (simp add: afterFetch_def Let_def newJobs_filter)

lemma afterFetch_seen:
  "snd (afterFetch jobs seen) = seen_add_all seen (map jobId (fst (afterFetch jobs seen)))"
  by (simp add: afterFetch_def Let_def)

lemma pollForJobs_afterFetch:
  assumes "fetchAmazonJobs w s = Some (jobs, s1)"
  shows "pollForJobs w s
     = (if fst (afterFetch jobs (seenJobIds s)) = [] then Some s1
        else sendTelegramAlert w (fst (afterFetch jobs (seenJobIds s)))
               (s1\<lparr>seenJobIds := snd (afterFetch jobs (seenJobIds s))\<rparr>))"
proof -
  from fetchAmazonJobs_run [OF assms] have "seenJobIds s1 = seenJobIds s" by simp
  with assms show ?thesis
    by (simp add: pollForJobs_def afterFetch_def Let_def)
qed

text \<open>
  C1. For every list \<open>B\<close> that the fetch of a cycle returns and every seen set \<open>S\<close>,
  the jobs that the cycle emits are exactly the jobs of \<open>B\<close> whose identifier is not in
  \<open>S\<close>, in the order of \<open>B\<close>, and none when every identifier of \<open>B\<close> is in \<open>S\<close>.
  This is what the segment between the fetch and the dispatcher computes in every
  monitor. In auto-token-monitor.js the cycle calls the dispatcher with exactly that
  list, and not at all when it is empty, whether or not the dispatcher then returns;
  when the provider answers every item, the cycle returns and the messages sent are
  those of \<open>B \ S\<close>, in order. With \<open>S = {J1, J2}\<close> and \<open>J1, J2, J3\<close> fetched,
  \<open>J3\<close> alone is emitted.
\<close>

theorem pollForJobs_emits_unseen:
  "fst (afterFetch B S) = filter (\<lambda>job. jobId job \<notin> set S) B
   \<and> set (fst (afterFetch B S)) = {job \<in> set B. jobId job \<notin> set S}
   \<and> (jobId ` set B \<subseteq> set S \<longrightarrow> fst (afterFetch B S) = [])
   \<and> (fetchAmazonJobs w s = Some (B, s1)
        \<and> E = filter (\<lambda>job. jobId job \<notin> set (seenJobIds s)) B
      \<longrightarrow> pollForJobs w s
            = (if E = [] then Some s1
               else sendTelegramAlert w E
                      (s1\<lparr>seenJobIds := seen_add_all (seenJobIds s) (map jobId E)\<rparr>))
          \<and> (telegramConfigured w \<and> follows w (sends s) ns
                \<and> length ns = min (length E) MAX_JOBS_PER_ALERT
              \<longrightarrow> (\<exists>s'. pollForJobs w s = Some s'
                     \<and> dispatched (trace s') = dispatched (trace s1) @ expected E ns)))"
proof -
  have 1: "fst (afterFetch B S) = filter (\<lambda>job. jobId job \<notin> set S) B" for S
    by (rule afterFetch_emits)
  have 2: "set (fst (afterFetch B S)) = {job \<in> set B. jobId job \<notin> set S}"
    unfolding 1 by auto
  have 3: "jobId ` set B \<subseteq> set S \<longrightarrow> fst (afterFetch B S) = []"
    unfolding 1 by (auto simp add: filter_empty_conv)
  have 4: "pollForJobs w s
            = (if E = [] then Some s1
               else sendTelegramAlert w E
                      (s1\<lparr>seenJobIds := seen_add_all (seenJobIds s) (map jobId E)\<rparr>))"
    if f: "fetchAmazonJobs w s = Some (B, s1)"
      and E: "E = filter (\<lambda>job. jobId job \<notin> set (seenJobIds s)) B"
    using pollForJobs_afterFetch [OF f] afterFetch_seen [of B "seenJobIds s"]
    by (simp add: 1 E)
  have 5: "\<exists>s'. pollForJobs w s = Some s'
                     \<and> dispatched (trace s') = dispatched (trace s1) @ expected E ns"
    if f: "fetchAmazonJobs w s = Some (B, s1)"
      and E: "E = filter (\<lambda>job. jobId job \<notin> set (seenJobIds s)) B"
      and c: "telegramConfigured w" "follows w (sends s) ns"
        "length ns = min (length E) MAX_JOBS_PER_ALERT"
  proof (cases "E = []")
    case True
    with c(3) have "ns = []" by simp
    with True 4 [OF f E] show ?thesis by simp
  next
    case False
    define s2 where "s2 = s1\<lparr>seenJobIds := seen_add_all (seenJobIds s) (map jobId E)\<rparr>"
    from fetchAmazonJobs_run [OF f] have "sends s2 = sends s" "trace s2 = trace s1"
      by (simp_all add: s2_def)
    with c(2) have fo: "follows w (sends s2) ns" by simp
    from sendLoop_prefix [of 0 ns E w s2] c(3) fo obtain s' where
      p: "sendLoop w E (int 0) s2 = sendLoop w E (int (0 + length ns)) s'"
         "dispatched (trace s') = dispatched (trace s2) @ expected E ns"
      by auto
    have "sendLoop w E (int (0 + length ns)) s' = Some s'"
      by (rule sendLoop_done) (use c(3) in auto)
    with p c(1) have "sendTelegramAlert w E s2 = Some s'"
      by (simp add: sendTelegramAlert_def)
    with False 4 [OF f E] p(2) \<open>trace s2 = trace s1\<close> show ?thesis
      by (simp add: s2_def)
  qed
  from 1 2 3 4 5 show ?thesis by blast
qed

lemmas poll_defs = pollForJobs_def newJobs_def seen_has_def seen_add_def

theorem pollForJobs_emits_unseen_witness:
  "fetchAmazonJobs calm steady
     = Some ([aJob ''J1'', aJob ''J2'', aJob ''J3''],
             steady\<lparr>fetches := 1, trace := [Query ''eyJhbGciOiJIUzI1NiJ9'' 1700000000000]\<rparr>)
   \<and> seenJobIds steady = [''J1'', ''J2'']
   \<and> [aJob ''J3''] = filter (\<lambda>job. jobId job \<notin> set (seenJobIds steady))
                        [aJob ''J1'', aJob ''J2'', aJob ''J3'']
   \<and> fst (afterFetch [aJob ''J1'', aJob ''J2'', aJob ''J3''] [''J1'', ''J2'']) = [aJob ''J3'']
   \<and> jobId ` set [aJob ''J1'', aJob ''J2''] \<subseteq> set [''J1'', ''J2'']
   \<and> fst (afterFetch [aJob ''J1'', aJob ''J2''] [''J1'', ''J2'']) = []
   \<and> telegramConfigured calm \<and> follows calm (sends steady) [0]
   \<and> length [0 :: nat] = min (length [aJob ''J3'']) MAX_JOBS_PER_ALERT
   \<and> pollForJobs calm steady
     = Some (steady\<lparr>seenJobIds := [''J1'', ''J2'', ''J3''], fetches := 1, sends := 1,
                trace := [Query ''eyJhbGciOiJIUzI1NiJ9'' 1700000000000, Send ''J3'']\<rparr>)
   \<and> expected [aJob ''J3''] [0] = [Send ''J3'']"
proof -
  define s1 where
    "s1 = steady\<lparr>fetches := 1, trace := [Query ''eyJhbGciOiJIUzI1NiJ9'' 1700000000000]\<rparr>"
  have r: "fetchRound calm steady = Returns ([aJob ''J1'', aJob ''J2'', aJob ''J3''], s1)"
    by (simp add: fetchRound_def isTokenExpired_def expiredWithin_def now_def calm_def
        steady_def falsy_def ok_def emit_def s1_def)
  note f = fetchAmazonJobs_Returns [OF r]
  have E: "[aJob ''J3''] = filter (\<lambda>job. jobId job \<notin> set (seenJobIds steady))
                        [aJob ''J1'', aJob ''J2'', aJob ''J3'']"
    by (simp add: steady_def aJob_def)
  have c: "telegramConfigured calm" "follows calm (sends steady) [0]"
    "length [0 :: nat] = min (length [aJob ''J3'']) MAX_JOBS_PER_ALERT"
    by (simp_all add: calm_def steady_def settles_def ok_def MAX_JOBS_PER_ALERT_def)
  have sub: "jobId ` set [aJob ''J1'', aJob ''J2''] \<subseteq> set [''J1'', ''J2'']"
    by (simp add: aJob_def)
  note t = pollForJobs_emits_unseen
  from t [where B = "[aJob ''J1'', aJob ''J2'', aJob ''J3'']" and S = "[''J1'', ''J2'']"]
  have a: "fst (afterFetch [aJob ''J1'', aJob ''J2'', aJob ''J3''] [''J1'', ''J2'']) = [aJob ''J3'']"
    by (simp add: aJob_def)
  from t [where B = "[aJob ''J1'', aJob ''J2'']" and S = "[''J1'', ''J2'']"] sub
  have b: "fst (afterFetch [aJob ''J1'', aJob ''J2''] [''J1'', ''J2'']) = []"
    by blast
  from t [where w = calm and s = steady and B = "[aJob ''J1'', aJob ''J2'', aJob ''J3'']"
      and ?s1.0 = s1 and E = "[aJob ''J3'']" and ns = "[0]"]
    f E c
  have p: "pollForJobs calm steady
            = sendTelegramAlert calm [aJob ''J3'']
                (s1\<lparr>seenJobIds := seen_add_all (seenJobIds steady) (map jobId [aJob ''J3''])\<rparr>)"
    by simp
  have d: "sendTelegramAlert calm [aJob ''J3'']
                (s1\<lparr>seenJobIds := seen_add_all (seenJobIds steady) (map jobId [aJob ''J3''])\<rparr>)
     = Some (steady\<lparr>seenJobIds := [''J1'', ''J2'', ''J3''], fetches := 1, sends := 1,
                trace := [Query ''eyJhbGciOiJIUzI1NiJ9'' 1700000000000, Send ''J3'']\<rparr>)"
    by (simp add: sendTelegramAlert_def sendLoop.simps sendOne_def emit_def ok_def Let_def
        MAX_JOBS_PER_ALERT_def aJob_def steady_def calm_def s1_def seen_add_def)
  have e: "expected [aJob ''J3''] [0] = [Send ''J3'']" by (simp add: aJob_def)
  from f E a sub b c p d e show ?thesis
    unfolding s1_def by (simp add: steady_def)
qed

subsection \<open>Errors during a tick\<close>

lemma sendsRequest_run:
  "sendsRequest w s = Unsent s1 \<Longrightarrow>
     seenJobIds s1 = seenJobIds s \<and> sends s1 = sends s \<and> fetches s1 = fetches s"
  "sendsRequest w s = Sent token s2 \<Longrightarrow>
     seenJobIds s2 = seenJobIds s \<and> sends s2 = sends s \<and> fetches s2 = fetches s + 1
     \<and> token \<noteq> [] \<and> currentAuthToken s2 = Some token"
proof -
  obtain r1 s0 where e: "(if isTokenExpired w s then refreshAuthToken w s else (Inr [], s)) = (r1, s0)"
    by (cases "if isTokenExpired w s then refreshAuthToken w s else (Inr [], s)")
  note 1 = entry_run [OF e]
  show "sendsRequest w s = Unsent s1 \<Longrightarrow>
     seenJobIds s1 = seenJobIds s \<and> sends s1 = sends s \<and> fetches s1 = fetches s"
    using 1 unfolding sendsRequest_def e
    by (auto split: sum.splits option.splits if_splits)
  show "sendsRequest w s = Sent token s2 \<Longrightarrow>
     seenJobIds s2 = seenJobIds s \<and> sends s2 = sends s \<and> fetches s2 = fetches s + 1
     \<and> token \<noteq> [] \<and> currentAuthToken s2 = Some token"
    using 1 unfolding sendsRequest_def e
    by (auto split: sum.splits option.splits if_splits)
qed

lemma fetchRound_request:
  "fetchRound w s =
     (case sendsRequest w s of
        Unsent s1 \<Rightarrow> failed s1
      | Sent token s2 \<Rightarrow>
          (case graphql w (fetches s) of
             Rejected \<Rightarrow> failed s2
           | Status st body \<Rightarrow>
               if \<not> ok st then
                 (if st = 401 then
                    (case refreshAuthToken w s2 of
                       (Inl e, s3) \<Rightarrow> failed s3
                     | (Inr _, s3) \<Rightarrow> Retry s3)
                  else failed s2)
               else
                 (case body of
                    BadJson \<Rightarrow> failed s2
                  | GraphqlErrors \<Rightarrow> failed s2
                  | NoJobData \<Rightarrow> Returns ([], s2)
                  | JobCards jobs \<Rightarrow> Returns (jobs, s2))))"
proof -
  obtain r1 s0 where e: "(if isTokenExpired w s then refreshAuthToken w s else (Inr [], s)) = (r1, s0)"
    by (cases "if isTokenExpired w s then refreshAuthToken w s else (Inr [], s)")
  from entry_run [OF e] have f: "fetches s0 = fetches s" by simp
  show ?thesis
    unfolding fetchRound_def sendsRequest_def e
    by (simp add: f Let_def split: sum.split option.split)
qed

lemma retried_fetch:
  "retried w k s = Some sk \<Longrightarrow>
     fetchAmazonJobs w s = fetchAmazonJobs w sk
     \<and> seenJobIds sk = seenJobIds s \<and> sends sk = sends s \<and> fetches sk = fetches s + k"
proof (induction k arbitrary: s)
  case 0
  then show ?case by simp
next
  case (Suc k)
  then obtain s3 where r: "fetchRound w s = Retry s3" and k: "retried w k s3 = Some sk"
    by (cases "fetchRound w s") simp_all
  from Suc.IH [OF k] fetchRound_Retry [OF r] fetchAmazonJobs_Retry [OF r]
  show ?case by simp
qed

lemma isTokenExpired_probe [simp]: "isTokenExpired (w\<lparr>probe := p\<rparr>) s = isTokenExpired w s"
  by (simp add: isTokenExpired_def expiredWithin_def split: option.splits)

lemma refreshAuthToken_probe:
  "fst (refreshAuthToken (w\<lparr>probe := p\<rparr>) s) = fst (refreshAuthToken w s)
   \<and> currentAuthToken (snd (refreshAuthToken (w\<lparr>probe := p\<rparr>) s))
       = currentAuthToken (snd (refreshAuthToken w s))"
proof -
  have i: "initializeBrowser (w\<lparr>probe := p\<rparr>) s = initializeBrowser w s"
    by (simp add: initializeBrowser_def)
  obtain r0 s0 where b: "(if \<not> browser s then initializeBrowser w s else (Inr (), s)) = (r0, s0)"
    by (cases "if \<not> browser s then initializeBrowser w s else (Inr (), s)")
  note x = extractAuthToken_probe [where w = w and p = p and r = 0 and s = s0]
  show ?thesis
    unfolding refreshAuthToken_def i b using x
    by (cases r0; cases "extractAuthToken (w\<lparr>probe := p\<rparr>) 0 s0"; cases "extractAuthToken w 0 s0")
       (auto split: sum.splits)
qed

lemma sendsRequest_probe:
  "(case (sendsRequest (w\<lparr>probe := p\<rparr>) s, sendsRequest w s) of
      (Unsent a, Unsent b) \<Rightarrow> True
    | (Sent t a, Sent t' b) \<Rightarrow> t = t'
    | _ \<Rightarrow> False)"
proof (cases "isTokenExpired w s")
  case False
  then show ?thesis by (simp add: sendsRequest_def split: option.split)
next
  case True
  from refreshAuthToken_probe [where w = w and p = p and s = s] True show ?thesis
    by (cases "refreshAuthToken (w\<lparr>probe := p\<rparr>) s"; cases "refreshAuthToken w s")
       (auto simp add: sendsRequest_def split: sum.split option.split)
qed

lemma extractAuthToken_no_expiry:
  assumes "goto w (visits s) = Storage local session" "scanStorage local session = Some token"
    "decodedExp (decodeJWT (Buffer_base64 w) (JSON_parse w) token) = None"
  shows "extractAuthToken w r s
     = (Inr token,
         emit (Wait 15000) (emit Goto (s\<lparr>visits := visits s + 1\<rparr>))
           \<lparr>currentAuthToken := Some token,
            tokenExpiryTime :=
              Some (now w (emit (Wait 15000) (emit Goto (s\<lparr>visits := visits s + 1\<rparr>)))
                    + 59 * 60 * 1000)\<rparr>)"
  using assms
  by (simp add: extractAuthToken_attempt [of w r s] attempt_def Let_def)

lemma extractAuthToken_undecoded:
  assumes "goto w (visits s) = Storage local session" "scanStorage local session = Some token"
    "decodeJWT_try (Buffer_base64 w) (JSON_parse w) token = Thrown e"
  shows "extractAuthToken w r s
     = (Inr token,
         emit (Wait 15000) (emit Goto (s\<lparr>visits := visits s + 1\<rparr>))
           \<lparr>currentAuthToken := Some token,
            tokenExpiryTime :=
              Some (now w (emit (Wait 15000) (emit Goto (s\<lparr>visits := visits s + 1\<rparr>)))
                    + 59 * 60 * 1000)\<rparr>)"
  using assms(3)
  by (intro extractAuthToken_no_expiry [OF assms(1,2)]) (simp add: decodeJWT_def decodedExp_def)

lemma sendsRequest_undecoded:
  assumes "goto w (visits s) = Storage local session" "scanStorage local session = Some token"
    "decodeJWT_try (Buffer_base64 w) (JSON_parse w) token = Thrown e"
    "isTokenExpired w s" "browser s"
  shows "\<exists>s2. sendsRequest w s = Sent token s2"
proof -
  from scanStorage_Some [OF assms(2)] have n: "token \<noteq> []" by simp
  from extractAuthToken_undecoded [OF assms(1,2,3), of 0] assms(4,5) n show ?thesis
    by (simp add: sendsRequest_def refreshAuthToken_def)
qed

text \<open>
  C7, amended. An error in the fetch step of a tick is caught and logged by
  \<open>fetchAmazonJobs\<close>, which returns the empty list: a failed refresh or a missing
  token before the request, a rejected request, an error status other than 401, an
  unparsable body or GraphQL errors in the answer, a failed refresh after a 401. In
  whichever pass of the tick this happens, the cycle then returns without emitting,
  with the seen set as it was. An item of the dispatcher that fails without a readable
  answer is caught and logged, and the dispatcher and with it the cycle return. In both
  cases \<open>pollForJobs\<close> returns normally, so the next tick runs. An error in the test
  request for a token, or in decoding its payload, is caught where it occurs and does
  not end the tick: whether the listings request goes out, and with which token, does
  not depend on the answers to test requests, and a token whose payload does not parse
  is stored with an assumed expiry of 59 minutes and returned, so that a tick which
  renews its token in the open browser and finds such a token sends its listings request
  with it.
\<close>

theorem poll_errors_are_caught:
  "(sendsRequest w s = Unsent s1
      \<or> sendsRequest w s = Sent token s1 \<and> fetchError (graphql w (fetches s))
      \<or> sendsRequest w s = Sent token s2 \<and> graphql w (fetches s) = Status 401 b
          \<and> refreshAuthToken w s2 = (Inl e, s1)
    \<longrightarrow> fetchRound w s = Returns ([], emit (LogError ''Error fetching jobs'') s1))
   \<and> (retried w k s = Some sk \<and> fetchRound w sk = Returns ([], s')
    \<longrightarrow> pollForJobs w s = Some s' \<and> seenJobIds s' = seenJobIds s \<and> sends s' = sends s)
   \<and> (fetchAmazonJobs w s = Some (B, s3) \<and> telegramConfigured w
        \<and> follows w (sends s) ns \<and> p = sends s + sum_list ns + length ns
        \<and> length ns < min (length (fst (afterFetch B (seenJobIds s)))) MAX_JOBS_PER_ALERT
        \<and> (\<forall>i<n. is429 (telegram w (p + i))) \<and> throws (telegram w (p + n))
    \<longrightarrow> (\<exists>s'. pollForJobs w s = Some s' \<and> sends s' = p + n + 1
           \<and> last (trace s') = LogError ''Error sending Telegram alert''))
   \<and> (case (sendsRequest (w\<lparr>probe := q\<rparr>) s, sendsRequest w s) of
         (Unsent x, Unsent y) \<Rightarrow> True
       | (Sent t x, Sent t' y) \<Rightarrow> t = t'
       | _ \<Rightarrow> False)
   \<and> (goto w (visits s) = Storage local session \<and> scanStorage local session = Some t
        \<and> decodeJWT_try (Buffer_base64 w) (JSON_parse w) t = Thrown d
    \<longrightarrow> extractAuthToken w r s
          = (Inr t,
              emit (Wait 15000) (emit Goto (s\<lparr>visits := visits s + 1\<rparr>))
                \<lparr>currentAuthToken := Some t,
                 tokenExpiryTime :=
                   Some (now w (emit (Wait 15000) (emit Goto (s\<lparr>visits := visits s + 1\<rparr>)))
                         + 59 * 60 * 1000)\<rparr>)
        \<and> (isTokenExpired w s \<and> browser s \<longrightarrow> (\<exists>s2. sendsRequest w s = Sent t s2)))"
proof -
  have 1: "fetchRound w s = Returns ([], emit (LogError ''Error fetching jobs'') s1)"
    if "sendsRequest w s = Unsent s1
      \<or> sendsRequest w s = Sent token s1 \<and> fetchError (graphql w (fetches s))
      \<or> sendsRequest w s = Sent token s2 \<and> graphql w (fetches s) = Status 401 b
          \<and> refreshAuthToken w s2 = (Inl e, s1)"
    using that
    by (auto simp add: fetchRound_request [of w s] fetchError_def failed_def ok_def
        split: reply.splits listing_body.splits if_splits)
  have 2: "pollForJobs w s = Some s' \<and> seenJobIds s' = seenJobIds s \<and> sends s' = sends s"
    if k: "retried w k s = Some sk" and r: "fetchRound w sk = Returns ([], s')"
  proof -
    from retried_fetch [OF k] fetchAmazonJobs_Returns [OF r]
    have f: "fetchAmazonJobs w s = Some ([], s')" by simp
    from fetchAmazonJobs_run [OF f] f show ?thesis by (simp add: pollForJobs_def)
  qed
  have 3: "\<exists>s'. pollForJobs w s = Some s' \<and> sends s' = p + n + 1
           \<and> last (trace s') = LogError ''Error sending Telegram alert''"
    if f: "fetchAmazonJobs w s = Some (B, s3)" and c: "telegramConfigured w"
      and fo: "follows w (sends s) ns" and p: "p = sends s + sum_list ns + length ns"
      and l: "length ns < min (length (fst (afterFetch B (seenJobIds s)))) MAX_JOBS_PER_ALERT"
      and r: "\<forall>i<n. is429 (telegram w (p + i))" and t: "throws (telegram w (p + n))"
  proof -
    define E where "E = fst (afterFetch B (seenJobIds s))"
    define s4 where "s4 = s3\<lparr>seenJobIds := snd (afterFetch B (seenJobIds s))\<rparr>"
    from l have ne: "E \<noteq> []" and i: "length ns < length E" "length ns < MAX_JOBS_PER_ALERT"
      by (auto simp add: E_def)
    from fetchAmazonJobs_run [OF f] have s4: "sends s4 = sends s" by (simp add: s4_def)
    from pollForJobs_afterFetch [OF f] ne
    have poll: "pollForJobs w s = sendTelegramAlert w E s4" by (simp add: E_def s4_def)
    from sendLoop_prefix [of 0 ns E w s4] i fo s4 obtain s5 where
      5: "sendLoop w E (int 0) s4 = sendLoop w E (int (0 + length ns)) s5"
         "sends s5 = p" by (auto simp add: p)
    from r 5(2) have "\<forall>i<n. is429 (telegram w (sends s5 + i))" by simp
    from sendLoop_cooldowns [OF i this] obtain s6 where
      6: "sendLoop w E (int (length ns)) s5 = sendLoop w E (int (length ns)) s6"
         "sends s6 = sends s5 + n" by blast
    from t 5(2) 6(2) have "throws (telegram w (sends s6))" by simp
    note 7 = sendLoop_thrown [OF i this]
    show ?thesis
      using poll c 5 6 7 by (simp add: sendTelegramAlert_def)
  qed
  note 4 = sendsRequest_probe [where w = w and p = q and s = s]
  note 5 = extractAuthToken_undecoded [of w s local session t d r]
  note 6 = sendsRequest_undecoded [of w s local session t d]
  from 1 2 3 4 5 6 show ?thesis by blast
qed


lemmas tick_defs = pollForJobs_def fetchAmazonJobs.simps newJobs_def seen_has_def seen_add_def
  sendTelegramAlert_def sendLoop.simps sendOne_def MAX_JOBS_PER_ALERT_def aJob_def

text \<open>
  C7 fails as stated for errors in decoding and in testing a token: they are caught, but
  the tick does not end early. The stored token has three minutes left, so the tick
  starts with a refresh. In the first run the payload of the token on the page is not
  JSON; in the second the test request for the token is rejected. Both ticks go on to
  query the API and to alert for \<open>J3\<close>.
\<close>

theorem tick_goes_on_counterexample:
  "decodeJWT_try (Buffer_base64 garbled) (JSON_parse garbled)
       ''eyJhbGciOiJIUzI1NiJ9.bm90IGpzb24.c2ln'' = Thrown ''SyntaxError''
   \<and> pollForJobs garbled stale
     = Some \<lparr>seenJobIds = [''J1'', ''J2'', ''J3''],
          currentAuthToken = Some ''eyJhbGciOiJIUzI1NiJ9.bm90IGpzb24.c2ln'',
          tokenExpiryTime = Some 1700003572000, browser = True, launches = 1,
          visits = 2, probes = 0, fetches = 1, sends = 1,
          trace = [Goto, Wait 15000,
                   Query ''eyJhbGciOiJIUzI1NiJ9.bm90IGpzb24.c2ln'' 1700000032000,
                   Send ''J3'']\<rparr>
   \<and> probe untested 0 = Rejected
   \<and> pollForJobs untested stale
     = Some \<lparr>seenJobIds = [''J1'', ''J2'', ''J3''],
          currentAuthToken = Some token3600,
          tokenExpiryTime = Some 1700003600000, browser = True, launches = 1,
          visits = 2, probes = 1, fetches = 1, sends = 1,
          trace = [Goto, Wait 15000, Tested token3600 Rejected,
                   Query token3600 1700000048000, Send ''J3'']\<rparr>"
  by (simp add: tick_defs run_defs runtime_defs garbled_def untested_def calm_def stale_def
      steady_def split_dot.simps)


theorem poll_errors_are_caught_witness:
  "sendsRequest unplugged stale
     = Unsent \<lparr>seenJobIds = [''J1'', ''J2''],
          currentAuthToken = Some ''eyJhbGciOiJIUzI1NiJ9'',
          tokenExpiryTime = Some 1700000180000, browser = True, launches = 1,
          visits = 2, probes = 0, fetches = 0, sends = 0,
          trace = [Goto, LogError ''Error extracting auth token'',
                   LogError ''Error refreshing auth token'']\<rparr>
   \<and> pollForJobs unplugged stale
     = Some \<lparr>seenJobIds = [''J1'', ''J2''],
          currentAuthToken = Some ''eyJhbGciOiJIUzI1NiJ9'',
          tokenExpiryTime = Some 1700000180000, browser = True, launches = 1,
          visits = 2, probes = 0, fetches = 0, sends = 0,
          trace = [Goto, LogError ''Error extracting auth token'',
                   LogError ''Error refreshing auth token'',
                   LogError ''Error fetching jobs'']\<rparr>
   \<and> fetchError (graphql flaky 1)
   \<and> retried flaky 1 steady
     = Some \<lparr>seenJobIds = [''J1'', ''J2''],
          currentAuthToken = Some ''eyJhbGciOiJIUzI1NiJ9'',
          tokenExpiryTime = Some 1700003588000, browser = True, launches = 1,
          visits = 2, probes = 0, fetches = 1, sends = 0,
          trace = [Query ''eyJhbGciOiJIUzI1NiJ9'' 1700000000000, Goto, Wait 15000]\<rparr>
   \<and> pollForJobs flaky steady
     = Some \<lparr>seenJobIds = [''J1'', ''J2''],
          currentAuthToken = Some ''eyJhbGciOiJIUzI1NiJ9'',
          tokenExpiryTime = Some 1700003588000, browser = True, launches = 1,
          visits = 2, probes = 0, fetches = 2, sends = 0,
          trace = [Query ''eyJhbGciOiJIUzI1NiJ9'' 1700000000000, Goto, Wait 15000,
                   Query ''eyJhbGciOiJIUzI1NiJ9'' 1700000048000,
                   LogError ''Error fetching jobs'']\<rparr>
   \<and> graphql unplugged (fetches steady) = Status 401 NoJobData
   \<and> pollForJobs unplugged steady
     = Some \<lparr>seenJobIds = [''J1'', ''J2''],
          currentAuthToken = Some ''eyJhbGciOiJIUzI1NiJ9'',
          tokenExpiryTime = Some 1700003000000, browser = True, launches = 1,
          visits = 2, probes = 0, fetches = 1, sends = 0,
          trace = [Query ''eyJhbGciOiJIUzI1NiJ9'' 1700000000000, Goto,
                   LogError ''Error extracting auth token'',
                   LogError ''Error refreshing auth token'',
                   LogError ''Error fetching jobs'']\<rparr>
   \<and> telegramConfigured muted \<and> throws (telegram muted 0)
   \<and> (\<exists>s'. pollForJobs muted steady = Some s' \<and> sends s' = 1
          \<and> last (trace s') = LogError ''Error sending Telegram alert'')
   \<and> scanStorage [(''sessionToken'', ''eyJhbGciOiJIUzI1NiJ9.bm90IGpzb24.c2ln'')] []
       = Some ''eyJhbGciOiJIUzI1NiJ9.bm90IGpzb24.c2ln''
   \<and> decodeJWT_try (Buffer_base64 garbled) (JSON_parse garbled)
       ''eyJhbGciOiJIUzI1NiJ9.bm90IGpzb24.c2ln'' = Thrown ''SyntaxError''
   \<and> extractAuthToken garbled 0 stale
     = (Inr ''eyJhbGciOiJIUzI1NiJ9.bm90IGpzb24.c2ln'',
         \<lparr>seenJobIds = [''J1'', ''J2''],
            currentAuthToken = Some ''eyJhbGciOiJIUzI1NiJ9.bm90IGpzb24.c2ln'',
            tokenExpiryTime = Some 1700003572000, browser = True, launches = 1,
            visits = 2, probes = 0, fetches = 0, sends = 0,
            trace = [Goto, Wait 15000]\<rparr>)
   \<and> isTokenExpired garbled stale \<and> browser stale
   \<and> (\<exists>s2. sendsRequest garbled stale = Sent ''eyJhbGciOiJIUzI1NiJ9.bm90IGpzb24.c2ln'' s2)"
proof -
  note t = poll_errors_are_caught
  define u1 where "u1 = \<lparr>seenJobIds = [''J1'', ''J2''],
          currentAuthToken = Some ''eyJhbGciOiJIUzI1NiJ9'',
          tokenExpiryTime = Some 1700000180000, browser = True, launches = 1,
          visits = 2, probes = 0, fetches = 0, sends = 0,
          trace = [Goto, LogError ''Error extracting auth token'',
                   LogError ''Error refreshing auth token'']\<rparr>"
  have a: "sendsRequest unplugged stale = Unsent u1"
    by (simp add: sendsRequest_def run_defs unplugged_def denying_def calm_def stale_def
        steady_def u1_def)
  have a0: "retried unplugged 0 stale = Some stale" by simp
  from t [where w = unplugged and s = stale and ?s1.0 = u1] a
  have a1: "fetchRound unplugged stale = Returns ([], emit (LogError ''Error fetching jobs'') u1)"
    by blast
  from t [where w = unplugged and s = stale and k = 0 and sk = stale
      and s' = "emit (LogError ''Error fetching jobs'') u1"] a0 a1
  have A: "pollForJobs unplugged stale = Some (emit (LogError ''Error fetching jobs'') u1)"
    by blast
  define f1 where "f1 = \<lparr>seenJobIds = [''J1'', ''J2''],
          currentAuthToken = Some ''eyJhbGciOiJIUzI1NiJ9'',
          tokenExpiryTime = Some 1700003588000, browser = True, launches = 1,
          visits = 2, probes = 0, fetches = 1, sends = 0,
          trace = [Query ''eyJhbGciOiJIUzI1NiJ9'' 1700000000000, Goto, Wait 15000]\<rparr>"
  define f2 where "f2 = emit (Query ''eyJhbGciOiJIUzI1NiJ9'' 1700000048000)
                          (f1\<lparr>fetches := fetches f1 + 1\<rparr>)"
  have b: "retried flaky 1 steady = Some f1"
    by (simp add: run_defs flaky_def calm_def steady_def f1_def)
  have b0: "sendsRequest flaky f1 = Sent ''eyJhbGciOiJIUzI1NiJ9'' f2"
    "fetchError (graphql flaky (fetches f1))" "fetchError (graphql flaky 1)"
    by (simp_all add: sendsRequest_def run_defs fetchError_def flaky_def calm_def f1_def f2_def)
  from t [where w = flaky and s = f1 and ?s1.0 = f2 and token = "''eyJhbGciOiJIUzI1NiJ9''"] b0
  have b1: "fetchRound flaky f1 = Returns ([], emit (LogError ''Error fetching jobs'') f2)"
    by blast
  from t [where w = flaky and s = steady and k = 1 and sk = f1
      and s' = "emit (LogError ''Error fetching jobs'') f2"] b b1
  have B: "pollForJobs flaky steady = Some (emit (LogError ''Error fetching jobs'') f2)"
    by blast
  define q where "q = emit (Query ''eyJhbGciOiJIUzI1NiJ9'' 1700000000000)
                        (steady\<lparr>fetches := fetches steady + 1\<rparr>)"
  define u2 where "u2 = \<lparr>seenJobIds = [''J1'', ''J2''],
          currentAuthToken = Some ''eyJhbGciOiJIUzI1NiJ9'',
          tokenExpiryTime = Some 1700003000000, browser = True, launches = 1,
          visits = 2, probes = 0, fetches = 1, sends = 0,
          trace = [Query ''eyJhbGciOiJIUzI1NiJ9'' 1700000000000, Goto,
                   LogError ''Error extracting auth token'',
                   LogError ''Error refreshing auth token'']\<rparr>"
  have c: "sendsRequest unplugged steady = Sent ''eyJhbGciOiJIUzI1NiJ9'' q"
    "graphql unplugged (fetches steady) = Status 401 NoJobData"
    "refreshAuthToken unplugged q = (Inl ''Navigation failed'', u2)"
    by (simp_all add: sendsRequest_def run_defs unplugged_def denying_def calm_def steady_def
        q_def u2_def)
  have c0: "retried unplugged 0 steady = Some steady" by simp
  from t [where w = unplugged and s = steady and ?s1.0 = u2 and ?s2.0 = q
      and token = "''eyJhbGciOiJIUzI1NiJ9''" and b = NoJobData and e = "''Navigation failed''"] c
  have c1: "fetchRound unplugged steady = Returns ([], emit (LogError ''Error fetching jobs'') u2)"
    by blast
  from t [where w = unplugged and s = steady and k = 0 and sk = steady
      and s' = "emit (LogError ''Error fetching jobs'') u2"] c0 c1
  have C: "pollForJobs unplugged steady = Some (emit (LogError ''Error fetching jobs'') u2)"
    by blast
  define m1 where
    "m1 = steady\<lparr>fetches := 1, trace := [Query ''eyJhbGciOiJIUzI1NiJ9'' 1700000000000]\<rparr>"
  have d: "fetchAmazonJobs muted steady = Some ([aJob ''J1'', aJob ''J2'', aJob ''J3''], m1)"
    "telegramConfigured muted" "follows muted (sends steady) []"
    "0 = sends steady + sum_list [] + length ([] :: nat list)"
    "length ([] :: nat list) < min (length (fst (afterFetch [aJob ''J1'', aJob ''J2'', aJob ''J3'']
         (seenJobIds steady)))) MAX_JOBS_PER_ALERT"
    "\<forall>i<0. is429 (telegram muted (0 + i))" "throws (telegram muted (0 + 0))"
    by (simp_all add: fetchAmazonJobs.simps run_defs afterFetch_def newJobs_def seen_has_def
        MAX_JOBS_PER_ALERT_def throws_def muted_def calm_def steady_def aJob_def m1_def)
  from t [where w = muted and s = steady and B = "[aJob ''J1'', aJob ''J2'', aJob ''J3'']"
      and ?s3.0 = m1 and ns = "[]" and p = 0 and n = 0] d
  have D: "\<exists>s'. pollForJobs muted steady = Some s' \<and> sends s' = 1
          \<and> last (trace s') = LogError ''Error sending Telegram alert''"
    by simp
  have e: "goto garbled (visits stale)
       = Storage [(''sessionToken'', ''eyJhbGciOiJIUzI1NiJ9.bm90IGpzb24.c2ln'')] []"
    "scanStorage [(''sessionToken'', ''eyJhbGciOiJIUzI1NiJ9.bm90IGpzb24.c2ln'')] []
       = Some ''eyJhbGciOiJIUzI1NiJ9.bm90IGpzb24.c2ln''"
    "decodeJWT_try (Buffer_base64 garbled) (JSON_parse garbled)
       ''eyJhbGciOiJIUzI1NiJ9.bm90IGpzb24.c2ln'' = Thrown ''SyntaxError''"
    by (simp_all add: run_defs garbled_def calm_def)
  from t [where w = garbled and s = stale and r = 0
      and local = "[(''sessionToken'', ''eyJhbGciOiJIUzI1NiJ9.bm90IGpzb24.c2ln'')]"
      and session = "[]" and t = "''eyJhbGciOiJIUzI1NiJ9.bm90IGpzb24.c2ln''"
      and d = "''SyntaxError''"] e
  have E: "extractAuthToken garbled 0 stale
          = (Inr ''eyJhbGciOiJIUzI1NiJ9.bm90IGpzb24.c2ln'',
              emit (Wait 15000) (emit Goto (stale\<lparr>visits := visits stale + 1\<rparr>))
                \<lparr>currentAuthToken := Some ''eyJhbGciOiJIUzI1NiJ9.bm90IGpzb24.c2ln'',
                 tokenExpiryTime :=
                   Some (now garbled (emit (Wait 15000) (emit Goto (stale\<lparr>visits := visits stale + 1\<rparr>)))
                         + 59 * 60 * 1000)\<rparr>)"
    by blast
  have g: "isTokenExpired garbled stale" "browser stale"
    by (simp_all add: run_defs garbled_def calm_def stale_def steady_def)
  from t [where w = garbled and s = stale and r = 0
      and local = "[(''sessionToken'', ''eyJhbGciOiJIUzI1NiJ9.bm90IGpzb24.c2ln'')]"
      and session = "[]" and t = "''eyJhbGciOiJIUzI1NiJ9.bm90IGpzb24.c2ln''"
      and d = "''SyntaxError''"] e g
  have G: "\<exists>s2. sendsRequest garbled stale = Sent ''eyJhbGciOiJIUzI1NiJ9.bm90IGpzb24.c2ln'' s2"
    by blast
  have first: "sendsRequest unplugged stale
         = Unsent \<lparr>seenJobIds = [''J1'', ''J2''],
              currentAuthToken = Some ''eyJhbGciOiJIUzI1NiJ9'',
              tokenExpiryTime = Some 1700000180000, browser = True, launches = 1,
              visits = 2, probes = 0, fetches = 0, sends = 0,
              trace = [Goto, LogError ''Error extracting auth token'',
                       LogError ''Error refreshing auth token'']\<rparr>
       \<and> pollForJobs unplugged stale
         = Some \<lparr>seenJobIds = [''J1'', ''J2''],
              currentAuthToken = Some ''eyJhbGciOiJIUzI1NiJ9'',
              tokenExpiryTime = Some 1700000180000, browser = True, launches = 1,
              visits = 2, probes = 0, fetches = 0, sends = 0,
              trace = [Goto, LogError ''Error extracting auth token'',
                       LogError ''Error refreshing auth token'',
                       LogError ''Error fetching jobs'']\<rparr>
       \<and> fetchError (graphql flaky 1)
       \<and> retried flaky 1 steady
         = Some \<lparr>seenJobIds = [''J1'', ''J2''],
              currentAuthToken = Some ''eyJhbGciOiJIUzI1NiJ9'',
              tokenExpiryTime = Some 1700003588000, browser = True, launches = 1,
              visits = 2, probes = 0, fetches = 1, sends = 0,
              trace = [Query ''eyJhbGciOiJIUzI1NiJ9'' 1700000000000, Goto, Wait 15000]\<rparr>
       \<and> pollForJobs flaky steady
         = Some \<lparr>seenJobIds = [''J1'', ''J2''],
              currentAuthToken = Some ''eyJhbGciOiJIUzI1NiJ9'',
              tokenExpiryTime = Some 1700003588000, browser = True, launches = 1,
              visits = 2, probes = 0, fetches = 2, sends = 0,
              trace = [Query ''eyJhbGciOiJIUzI1NiJ9'' 1700000000000, Goto, Wait 15000,
                       Query ''eyJhbGciOiJIUzI1NiJ9'' 1700000048000,
                       LogError ''Error fetching jobs'']\<rparr>
       \<and> graphql unplugged (fetches steady) = Status 401 NoJobData
       \<and> pollForJobs unplugged steady
         = Some \<lparr>seenJobIds = [''J1'', ''J2''],
              currentAuthToken = Some ''eyJhbGciOiJIUzI1NiJ9'',
              tokenExpiryTime = Some 1700003000000, browser = True, launches = 1,
              visits = 2, probes = 0, fetches = 1, sends = 0,
              trace = [Query ''eyJhbGciOiJIUzI1NiJ9'' 1700000000000, Goto,
                       LogError ''Error extracting auth token'',
                       LogError ''Error refreshing auth token'',
                       LogError ''Error fetching jobs'']\<rparr>
       \<and> telegramConfigured muted \<and> throws (telegram muted 0)
       \<and> (\<exists>s'. pollForJobs muted steady = Some s' \<and> sends s' = 1
              \<and> last (trace s') = LogError ''Error sending Telegram alert'')
       \<and> scanStorage [(''sessionToken'', ''eyJhbGciOiJIUzI1NiJ9.bm90IGpzb24.c2ln'')] []
           = Some ''eyJhbGciOiJIUzI1NiJ9.bm90IGpzb24.c2ln''
       \<and> decodeJWT_try (Buffer_base64 garbled) (JSON_parse garbled)
           ''eyJhbGciOiJIUzI1NiJ9.bm90IGpzb24.c2ln'' = Thrown ''SyntaxError''
       \<and> extractAuthToken garbled 0 stale
         = (Inr ''eyJhbGciOiJIUzI1NiJ9.bm90IGpzb24.c2ln'',
             \<lparr>seenJobIds = [''J1'', ''J2''],
                currentAuthToken = Some ''eyJhbGciOiJIUzI1NiJ9.bm90IGpzb24.c2ln'',
                tokenExpiryTime = Some 1700003572000, browser = True, launches = 1,
                visits = 2, probes = 0, fetches = 0, sends = 0,
                trace = [Goto, Wait 15000]\<rparr>)"
    using a A b0(3) b B c(2) C d(2,7) D e(2,3) E
    unfolding u1_def f1_def f2_def u2_def
    by (simp add: emit_def now_def garbled_def calm_def stale_def steady_def)
  from first g G show ?thesis by blast
qed

subsection \<open>Retries after a rejected token, in both monitors\<close>






















subsection \<open>The seen set under overlapping cycles\<close>

lemma interleaved_append:
  "interleaved (gs @ hs) seen = interleaved hs (interleaved gs seen)"
  by (induction gs arbitrary: seen) simp_all

lemma afterAlert_bound: "length (afterAlert seen) \<le> 1000"
  by (simp add: afterAlert_def length_slice_last)

lemma afterFetch_unchanged: "fst (afterFetch jobs seen) = [] \<Longrightarrow> snd (afterFetch jobs seen) = seen"
  by (simp add: afterFetch_def Let_def split: if_splits)

lemma serial_bound:
  "serial gs seen \<Longrightarrow> length seen \<le> 1000 \<Longrightarrow> length (interleaved gs seen) \<le> 1000"
proof (induction gs seen rule: serial.induct)
  case (1 seen)
  then show ?case by simp
next
  case (2 jobs gs seen)
  show ?case
  proof (cases "fst (afterFetch jobs seen) = []")
    case True
    with 2 afterFetch_unchanged [OF True] show ?thesis by simp
  next
    case False
    with "2.prems"(1) obtain gs' where gs: "gs = Alerted # gs'"
      by (auto split: list.splits segment.splits)
    with False "2.prems"(1)
    have s: "serial gs' (afterAlert (snd (afterFetch jobs seen)))" by simp
    from "2.IH"(2) [OF False gs refl s afterAlert_bound] gs show ?thesis by simp
  qed
next
  case (3 gs seen)
  then show ?case by simp
next
  case (4 gs seen)
  then show ?case by simp
qed

text \<open>
  C5, amended. In the trimming monitors a cycle that had new jobs prunes the seen set to
  the 500 most recently inserted identifiers when it resumes after its dispatcher and
  finds more than 1000: whatever cycles ran before and however they overlapped, the set
  holds at most 1000 identifiers right after that step. When cycles do not overlap and
  the set starts within the bound, it holds at most 1000 at the end of every cycle. In
  the clearing monitors the set is empty right after the 30-second timer fires,
  whatever ran before.
\<close>

theorem seenJobIds_bounded:
  "length (interleaved (gs @ [Alerted]) seen) \<le> 1000
   \<and> (1000 < length (interleaved gs seen)
      \<longrightarrow> interleaved (gs @ [Alerted]) seen = slice_last 500 (interleaved gs seen)
          \<and> length (interleaved (gs @ [Alerted]) seen) = 500)
   \<and> (serial gs seen \<and> length seen \<le> 1000 \<longrightarrow> length (interleaved gs seen) \<le> 1000)
   \<and> interleaved (gs @ [Cleared]) seen = []
   \<and> seenJobIds (clearSeenJobs s) = []"
  using serial_bound [of gs seen]
  by (simp add: interleaved_append afterAlert_def length_slice_last clearSeenJobs_def)

lemma J3_fresh: "''J3'' \<notin> set thousand"
  by (auto simp add: thousand_def anId_def)

lemma length_thousand: "length thousand = 1000"
  by (simp add: thousand_def)

lemma thousand_J3:
  "afterFetch [aJob ''J3''] thousand = ([aJob ''J3''], thousand @ [''J3''])"
  "afterFetch [aJob ''J3''] (thousand @ [''J3'']) = ([], thousand @ [''J3''])"
  using J3_fresh
  by (simp_all add: afterFetch_def newJobs_def seen_has_def seen_add_def aJob_def)

text \<open>
  C5 fails as stated for cycles that overlap. The set holds 1000 identifiers. A cycle
  finds \<open>J3\<close> new, adds it and waits for its dispatcher; the timer starts the next
  cycle, which fetches the same list, finds nothing new and ends, with 1001 identifiers
  in the set.
\<close>

theorem overlapping_cycles_counterexample:
  "length thousand = 1000
   \<and> admissible [Fetched [aJob ''J3''], Fetched [aJob ''J3'']] thousand 0
   \<and> fst (afterFetch [aJob ''J3''] (interleaved [Fetched [aJob ''J3'']] thousand)) = []
   \<and> length (interleaved [Fetched [aJob ''J3''], Fetched [aJob ''J3'']] thousand) = 1001"
  by (simp add: thousand_J3 length_thousand)

theorem seenJobIds_bounded_witness:
  "1000 < length (interleaved [Fetched [aJob ''J3'']] thousand)
   \<and> interleaved ([Fetched [aJob ''J3'']] @ [Alerted]) thousand
       = slice_last 500 (interleaved [Fetched [aJob ''J3'']] thousand)
   \<and> length (interleaved ([Fetched [aJob ''J3'']] @ [Alerted]) thousand) = 500
   \<and> serial [Fetched [aJob ''J3''], Alerted, Fetched [aJob ''J3'']] thousand
   \<and> length thousand \<le> 1000
   \<and> length (interleaved [Fetched [aJob ''J3''], Alerted, Fetched [aJob ''J3'']] thousand) \<le> 1000"
proof -
  have a: "1000 < length (interleaved [Fetched [aJob ''J3'']] thousand)"
    by (simp add: thousand_J3 length_thousand)
  have l: "length thousand \<le> 1000" by (simp add: length_thousand)
  have b: "serial [Fetched [aJob ''J3''], Alerted, Fetched [aJob ''J3'']] thousand"
  proof -
    have "''J3'' \<in> set (slice_last 500 (thousand @ [''J3'']))"
      by (simp add: slice_last_def length_thousand)
    then have "fst (afterFetch [aJob ''J3''] (slice_last 500 (thousand @ [''J3'']))) = []"
      by (simp add: afterFetch_def newJobs_def seen_has_def aJob_def)
    then show ?thesis
      by (simp add: thousand_J3 afterAlert_def length_thousand)
  qed
  from seenJobIds_bounded [of "[Fetched [aJob ''J3'']]" thousand] a
  have A: "interleaved ([Fetched [aJob ''J3'']] @ [Alerted]) thousand
       = slice_last 500 (interleaved [Fetched [aJob ''J3'']] thousand)"
    "length (interleaved ([Fetched [aJob ''J3'']] @ [Alerted]) thousand) = 500"
    by blast+
  from seenJobIds_bounded [of "[Fetched [aJob ''J3''], Alerted, Fetched [aJob ''J3'']]" thousand]
    b l
  have B: "length (interleaved [Fetched [aJob ''J3''], Alerted, Fetched [aJob ''J3'']] thousand) \<le> 1000"
    by blast
  from a A b l B show ?thesis by blast
qed

subsection \<open>Overlapping renewals\<close>

lemma upt_first: "[v..<v + Suc n] = v # [Suc v..<Suc v + n]"
  by (simp add: upt_rec [of v])

lemma overlapped_navigations:
  "browser s \<Longrightarrow>
     overlapped refreshAuthToken_start n s
       = (map Navigation [visits s..<visits s + n],
          s\<lparr>visits := visits s + n, trace := trace s @ replicate n Goto\<rparr>)"
proof (induction n arbitrary: s)
  case 0
  then show ?case by simp
next
  case (Suc n)
  define s1 where "s1 = emit Goto (s\<lparr>visits := visits s + 1\<rparr>)"
  have b: "browser s1" using Suc.prems by (simp add: s1_def)
  have st: "refreshAuthToken_start s = (Navigation (visits s), s1)"
    using Suc.prems by (simp add: refreshAuthToken_start_def s1_def)
  have v: "visits s1 = Suc (visits s)" by (simp add: s1_def)
  note ih = Suc.IH [OF b, unfolded v]
  have "overlapped refreshAuthToken_start (Suc n) s
      = (Navigation (visits s) # map Navigation [Suc (visits s)..<Suc (visits s) + n],
         s1\<lparr>visits := Suc (visits s) + n, trace := trace s1 @ replicate n Goto\<rparr>)"
    by (simp only: overlapped.simps st ih prod.case)
  also have "\<dots> = (map Navigation [visits s..<visits s + Suc n],
          s\<lparr>visits := visits s + Suc n, trace := trace s @ replicate (Suc n) Goto\<rparr>)"
    unfolding upt_first by (simp add: s1_def emit_def)
  finally show ?case .
qed

lemma overlapped_launches:
  "\<not> browser s \<Longrightarrow>
     overlapped refreshAuthToken_start n s
       = (map Launching [launches s..<launches s + n],
          s\<lparr>launches := launches s + n, trace := trace s @ replicate n Launch\<rparr>)"
proof (induction n arbitrary: s)
  case 0
  then show ?case by simp
next
  case (Suc n)
  define s1 where "s1 = emit Launch (s\<lparr>launches := launches s + 1\<rparr>)"
  have b: "\<not> browser s1" using Suc.prems by (simp add: s1_def)
  have st: "refreshAuthToken_start s = (Launching (launches s), s1)"
    using Suc.prems by (simp add: refreshAuthToken_start_def s1_def)
  have v: "launches s1 = Suc (launches s)" by (simp add: s1_def)
  note ih = Suc.IH [OF b, unfolded v]
  have "overlapped refreshAuthToken_start (Suc n) s
      = (Launching (launches s) # map Launching [Suc (launches s)..<Suc (launches s) + n],
         s1\<lparr>launches := Suc (launches s) + n, trace := trace s1 @ replicate n Launch\<rparr>)"
    by (simp only: overlapped.simps st ih prod.case)
  also have "\<dots> = (map Launching [launches s..<launches s + Suc n],
          s\<lparr>launches := launches s + Suc n, trace := trace s @ replicate (Suc n) Launch\<rparr>)"
    unfolding upt_first by (simp add: s1_def emit_def)
  finally show ?case .
qed

lemma overlapped_closing:
  "browser s \<Longrightarrow> overlapped getValidToken_start n s = (replicate n Closing, s)"
  by (induction n) (simp_all add: getValidToken_start_def)

lemma overlapped_resumed:
  "overlapped getValidToken_resume n s
       = (map Launching [launches s..<launches s + n],
          s\<lparr>browser := (if n = 0 then browser s else False), launches := launches s + n,
             trace := trace s @ replicate n Launch\<rparr>)"
proof (induction n arbitrary: s)
  case 0
  then show ?case by simp
next
  case (Suc n)
  define s1 where "s1 = emit Launch (s\<lparr>browser := False, launches := launches s + 1\<rparr>)"
  have st: "getValidToken_resume s = (Launching (launches s), s1)"
    by (simp add: getValidToken_resume_def s1_def)
  have v: "launches s1 = Suc (launches s)" by (simp add: s1_def)
  note ih = Suc.IH [of s1, unfolded v]
  have "overlapped getValidToken_resume (Suc n) s
      = (Launching (launches s) # map Launching [Suc (launches s)..<Suc (launches s) + n],
         s1\<lparr>browser := (if n = 0 then browser s1 else False),
            launches := Suc (launches s) + n, trace := trace s1 @ replicate n Launch\<rparr>)"
    by (simp only: overlapped.simps st ih prod.case)
  also have "\<dots> = (map Launching [launches s..<launches s + Suc n],
          s\<lparr>browser := (if Suc n = 0 then browser s else False),
             launches := launches s + Suc n, trace := trace s @ replicate (Suc n) Launch\<rparr>)"
    unfolding upt_first by (simp add: s1_def emit_def)
  finally show ?case .
qed

lemma refreshAuthToken_begins:
  assumes "refreshAuthToken w s = (r, s')"
  shows "\<exists>evs. trace s' = trace (snd (refreshAuthToken_start s)) @ evs"
proof (cases "browser s")
  case True
  obtain r2 s2 where e: "extractAuthToken w 0 s = (r2, s2)"
    by (cases "extractAuthToken w 0 s")
  from extractAuthToken_run [OF e] obtain evs where 2: "trace s2 = trace s @ Goto # evs" by auto
  from assms True e have "s' = s2 \<or> s' = emit (LogError ''Error refreshing auth token'') s2"
    by (auto simp add: refreshAuthToken_def split: sum.splits)
  with 2 True show ?thesis by (auto simp add: refreshAuthToken_start_def)
next
  case False
  from refreshAuthToken_run [OF assms] obtain e evs where
    t: "trace s' = trace s @ e # evs" "e = Launch \<or> e = Goto" by blast
  obtain r1 s1 where i: "initializeBrowser w s = (r1, s1)"
    by (cases "initializeBrowser w s")
  from initializeBrowser_run [OF i] obtain evs1 where 1: "trace s1 = trace s @ Launch # evs1"
    by blast
  have "\<exists>evs2. trace s' = trace s1 @ evs2"
  proof (cases r1)
    case (Inl err)
    with assms False i show ?thesis by (auto simp add: refreshAuthToken_def)
  next
    case (Inr u)
    obtain r2 s2 where e: "extractAuthToken w 0 s1 = (r2, s2)"
      by (cases "extractAuthToken w 0 s1")
    from extractAuthToken_run [OF e] obtain evs where 2: "trace s2 = trace s1 @ Goto # evs" by auto
    from assms False i Inr e
    have "s' = s2 \<or> s' = emit (LogError ''Error refreshing auth token'') s2"
      by (auto simp add: refreshAuthToken_def split: sum.splits)
    with 2 show ?thesis by auto
  qed
  with 1 False show ?thesis by (auto simp add: refreshAuthToken_start_def)
qed

lemma getValidToken_loop_extends:
  "getValidToken_loop w retries a s = (r, s') \<Longrightarrow> \<exists>evs. trace s' = trace s @ evs"
proof (induction "retries - a" arbitrary: a s)
  case 0
  then show ?case by (simp add: getValidToken_loop.simps [of w retries a s])
next
  case (Suc n)
  then have lt: "a < retries" by simp
  obtain r2 s5 where t2: "tryOnce w s = (r2, s5)" by (cases "tryOnce w s")
  from tryOnce_run [OF t2] obtain e5 where 5: "trace s5 = trace s @ e5" by blast
  show ?case
  proof (cases r2)
    case (Some tk)
    with Suc.prems t2 lt have "s' = s5"
      by (simp add: getValidToken_loop.simps [of w retries a s])
    with 5 show ?thesis by simp
  next
    case None
    define s6 where "s6 = pauseBeforeRetry (a + 1) retries s5"
    from Suc.prems t2 lt None
    have rec: "getValidToken_loop w retries (a + 1) s6 = (r, s')"
      by (simp add: getValidToken_loop.simps [of w retries a s] s6_def)
    have "n = retries - (a + 1)" using Suc.hyps(2) by simp
    from Suc.hyps(1) [OF this rec] obtain e7 where "trace s' = trace s6 @ e7" by blast
    moreover have "\<exists>e6. trace s6 = trace s5 @ e6" by (simp add: s6_def pauseBeforeRetry_def)
    ultimately show ?thesis using 5 by auto
  qed
qed

lemma getValidToken_begins:
  assumes "getValidToken w (Suc retries) s = (r, s')"
  shows "\<exists>evs. trace s' = trace (snd (getValidToken_resume s)) @ evs"
proof -
  obtain r1 s3 where t: "tryOnce w s = (r1, s3)" by (cases "tryOnce w s")
  from tryOnce_run [OF t] obtain evs0 where 0: "trace s3 = trace s @ Launch # evs0" by blast
  have "\<exists>evs. trace s' = trace s3 @ evs"
  proof (cases r1)
    case (Some tk)
    with assms t show ?thesis
      by (simp add: getValidToken_def getValidToken_loop.simps [of w "Suc retries" 0 s])
  next
    case None
    define s4 where "s4 = pauseBeforeRetry (0 + 1) (Suc retries) s3"
    from assms t None have rec: "getValidToken_loop w (Suc retries) (0 + 1) s4 = (r, s')"
      by (simp add: getValidToken_def getValidToken_loop.simps [of w "Suc retries" 0 s] s4_def)
    have 4: "\<exists>evs. trace s4 = trace s3 @ evs" by (simp add: s4_def pauseBeforeRetry_def)
    from getValidToken_loop_extends [OF rec] 4 show ?thesis by auto
  qed
  with 0 show ?thesis by (auto simp add: getValidToken_resume_def)
qed

text \<open>
  C9, amended. For every \<open>n\<close>, \<open>n\<close> renewals called while others are in flight
  each start an extraction of their own. Each call of \<open>refreshAuthToken\<close> starts a
  further navigation of the one page (a further launch when there is no browser), and
  waits for the navigation that it started. Each call of \<open>getValidToken\<close> of the token
  module closes the browser that is in use and starts a further launch. These first
  segments are those with which a call that runs alone begins. Nothing coalesces
  overlapping renewals.
\<close>

theorem renewals_do_not_coalesce:
  "(browser s \<longrightarrow>
      overlapped refreshAuthToken_start n s
        = (map Navigation [visits s..<visits s + n],
           s\<lparr>visits := visits s + n, trace := trace s @ replicate n Goto\<rparr>))
   \<and> (\<not> browser s \<longrightarrow>
      overlapped refreshAuthToken_start n s
        = (map Launching [launches s..<launches s + n],
           s\<lparr>launches := launches s + n, trace := trace s @ replicate n Launch\<rparr>))
   \<and> (refreshAuthToken w s = (r, s')
      \<longrightarrow> (\<exists>evs. trace s' = trace (snd (refreshAuthToken_start s)) @ evs))
   \<and> (browser s \<longrightarrow> overlapped getValidToken_start n s = (replicate n Closing, s))
   \<and> (\<not> browser s \<longrightarrow> getValidToken_start s = getValidToken_resume s)
   \<and> overlapped getValidToken_resume n s
        = (map Launching [launches s..<launches s + n],
           s\<lparr>browser := (if n = 0 then browser s else False), launches := launches s + n,
              trace := trace s @ replicate n Launch\<rparr>)
   \<and> (getValidToken w (Suc retries) s = (r, s')
      \<longrightarrow> (\<exists>evs. trace s' = trace (snd (getValidToken_resume s)) @ evs))"
  using overlapped_navigations [of s n] overlapped_launches [of s n]
    refreshAuthToken_begins [of w s r s'] overlapped_closing [of s n]
    overlapped_resumed [of n s] getValidToken_begins [of w retries s r s']
  by (simp add: getValidToken_start_def)

text \<open>
  C9 fails as stated. A renewal is in flight: it has started a navigation and waits for
  it. Two more calls of \<open>refreshAuthToken\<close> start two more navigations of the same
  page, so that three are in flight at once. Likewise three calls of \<open>getValidToken\<close>
  have three browser launches in flight.
\<close>

theorem racing_navigations_counterexample:
  "refreshAuthToken_start steady
     = (Navigation 1, steady\<lparr>visits := 2, trace := [Goto]\<rparr>)
   \<and> overlapped refreshAuthToken_start 2 (steady\<lparr>visits := 2, trace := [Goto]\<rparr>)
     = ([Navigation 2, Navigation 3], steady\<lparr>visits := 4, trace := [Goto, Goto, Goto]\<rparr>)
   \<and> getValidToken_resume steady
     = (Launching 1, steady\<lparr>browser := False, launches := 2, trace := [Launch]\<rparr>)
   \<and> overlapped getValidToken_start 2
        (steady\<lparr>browser := False, launches := 2, trace := [Launch]\<rparr>)
     = ([Launching 2, Launching 3],
        steady\<lparr>browser := False, launches := 4, trace := [Launch, Launch, Launch]\<rparr>)"
  by (simp add: refreshAuthToken_start_def getValidToken_start_def getValidToken_resume_def
      emit_def steady_def numeral_2_eq_2)


theorem renewals_do_not_coalesce_witness:
  "browser steady
   \<and> overlapped refreshAuthToken_start 2 steady
     = ([Navigation 1, Navigation 2], steady\<lparr>visits := 3, trace := [Goto, Goto]\<rparr>)
   \<and> \<not> browser (steady\<lparr>browser := False\<rparr>)
   \<and> overlapped refreshAuthToken_start 2 (steady\<lparr>browser := False\<rparr>)
     = ([Launching 1, Launching 2],
        steady\<lparr>browser := False, launches := 3, trace := [Launch, Launch]\<rparr>)
   \<and> overlapped getValidToken_start 2 steady = ([Closing, Closing], steady)
   \<and> getValidToken_start (steady\<lparr>browser := False\<rparr>)
     = (Launching 1, steady\<lparr>browser := False, launches := 2, trace := [Launch]\<rparr>)
   \<and> refreshAuthToken calm stale
       = (Inr ''eyJhbGciOiJIUzI1NiJ9'',
          \<lparr>seenJobIds = [''J1'', ''J2''],
             currentAuthToken = Some ''eyJhbGciOiJIUzI1NiJ9'',
             tokenExpiryTime = Some 1700003572000, browser = True, launches = 1,
             visits = 2, probes = 0, fetches = 0, sends = 0,
             trace = [Goto, Wait 15000]\<rparr>)
   \<and> (\<exists>evs. [Goto, Wait 15000] = trace (snd (refreshAuthToken_start stale)) @ evs)
   \<and> getValidToken shortlived (Suc 2) steady
     = (Inr token452,
        \<lparr>seenJobIds = [''J1'', ''J2''],
           currentAuthToken = Some ''eyJhbGciOiJIUzI1NiJ9'',
           tokenExpiryTime = Some 1700003000000, browser = True, launches = 2,
           visits = 2, probes = 1, fetches = 0, sends = 0,
           trace = [Launch, Goto, Wait 15000, Tested token452 (Status 200 ())]\<rparr>)
   \<and> (\<exists>evs. [Launch, Goto, Wait 15000, Tested token452 (Status 200 ())]
               = trace (snd (getValidToken_resume steady)) @ evs)"
proof -
  note t = renewals_do_not_coalesce
  define cold where "cold = steady\<lparr>browser := False\<rparr>"
  define r1 where "r1 = \<lparr>seenJobIds = [''J1'', ''J2''],
             currentAuthToken = Some ''eyJhbGciOiJIUzI1NiJ9'',
             tokenExpiryTime = Some 1700003572000, browser = True, launches = 1,
             visits = 2, probes = 0, fetches = 0, sends = 0,
             trace = [Goto, Wait 15000]\<rparr>"
  define good where "good = \<lparr>seenJobIds = [''J1'', ''J2''],
           currentAuthToken = Some ''eyJhbGciOiJIUzI1NiJ9'',
           tokenExpiryTime = Some 1700003000000, browser = True, launches = 2,
           visits = 2, probes = 1, fetches = 0, sends = 0,
           trace = [Launch, Goto, Wait 15000, Tested token452 (Status 200 ())]\<rparr>"
  have b: "browser steady" "\<not> browser cold" by (simp_all add: steady_def cold_def)
  have r: "refreshAuthToken calm stale = (Inr ''eyJhbGciOiJIUzI1NiJ9'', r1)"
    by (simp add: run_defs calm_def stale_def steady_def r1_def)
  have g: "getValidToken shortlived (Suc 2) steady = (Inr token452, good)"
    by (simp add: module_defs run_defs runtime_defs shortlived_def calm_def steady_def good_def
        numeral_3_eq_3 [symmetric])
  from t [where s = steady and n = 2] b(1)
  have A: "overlapped refreshAuthToken_start 2 steady
        = (map Navigation [visits steady..<visits steady + 2],
           steady\<lparr>visits := visits steady + 2, trace := trace steady @ replicate 2 Goto\<rparr>)"
    "overlapped getValidToken_start 2 steady = (replicate 2 Closing, steady)"
    by blast+
  from t [where s = cold and n = 2] b(2)
  have B: "overlapped refreshAuthToken_start 2 cold
        = (map Launching [launches cold..<launches cold + 2],
           cold\<lparr>launches := launches cold + 2, trace := trace cold @ replicate 2 Launch\<rparr>)"
    "getValidToken_start cold = getValidToken_resume cold"
    by blast+
  from t [where s = stale and w = calm and r = "Inr ''eyJhbGciOiJIUzI1NiJ9''" and s' = r1] r
  have C: "\<exists>evs. trace r1 = trace (snd (refreshAuthToken_start stale)) @ evs"
    by blast
  from t [where s = steady and w = shortlived and retries = 2 and r = "Inr token452"
      and s' = good] g
  have D: "\<exists>evs. trace good = trace (snd (getValidToken_resume steady)) @ evs"
    by blast
  have u: "[Suc 0..<3] = [1, 2]" by (simp add: upt_rec)
  from b A B C D r g show ?thesis
    unfolding cold_def r1_def good_def
    by (simp add: steady_def getValidToken_resume_def emit_def numeral_2_eq_2 u)
qed

end
